theory Spec2Isabelle
  imports Complex_Main "HOL-Library.Sublist"
begin

section \<open>Numbers and arrays of the source language\<close>

text \<open>
  A TypeScript \<open>number\<close> is modelled as a real number or \<open>NaN\<close>. Reading an
  array past its end gives \<open>undefined\<close>, which every arithmetic operation and every
  comparison of the solver treats exactly as \<open>NaN\<close>, so both are the one value
  \<open>NaN\<close> here. Rounding and the two infinities are not modelled: the numbers are
  ideal reals. The only infinity the source writes down, the initial
  \<open>minRatio\<close> of the ratio test, is modelled where it occurs.
\<close>

datatype number = Num real | NaN

fun nneg :: "number \<Rightarrow> number" where
  "nneg (Num x) = Num (- x)"
| "nneg NaN = NaN"

fun nadd :: "number \<Rightarrow> number \<Rightarrow> number" where
  "nadd (Num x) (Num y) = Num (x + y)"
| "nadd _ _ = NaN"

fun nsub :: "number \<Rightarrow> number \<Rightarrow> number" where
  "nsub (Num x) (Num y) = Num (x - y)"
| "nsub _ _ = NaN"

fun nmul :: "number \<Rightarrow> number \<Rightarrow> number" where
  "nmul (Num x) (Num y) = Num (x * y)"
| "nmul _ _ = NaN"

text \<open>
  Division by zero gives an infinity or \<open>NaN\<close> in the source, depending on the signs
  of the operands and of the zero. Every division of the solver and of the graphical
  method is guarded (\<open>pivotElement > 0\<close>, \<open>a !== 0\<close>, \<open>|det| \<ge> 1e-8\<close>), so the
  case is only reached when \<open>pivotOperation\<close> is used on its own with a zero pivot;
  the model gives \<open>NaN\<close> there.
\<close>

fun ndiv :: "number \<Rightarrow> number \<Rightarrow> number" where
  "ndiv (Num x) (Num y) = (if y = 0 then NaN else Num (x / y))"
| "ndiv _ _ = NaN"

fun nabs :: "number \<Rightarrow> number" where
  "nabs (Num x) = Num \<bar>x\<bar>"
| "nabs NaN = NaN"

text \<open>Comparisons with \<open>NaN\<close> are false.\<close>

fun nlt :: "number \<Rightarrow> number \<Rightarrow> bool" where
  "nlt (Num x) (Num y) = (x < y)"
| "nlt _ _ = False"

fun nle :: "number \<Rightarrow> number \<Rightarrow> bool" where
  "nle (Num x) (Num y) = (x \<le> y)"
| "nle _ _ = False"

definition ngt :: "number \<Rightarrow> number \<Rightarrow> bool" where
  "ngt a b = nlt b a"

definition nge :: "number \<Rightarrow> number \<Rightarrow> bool" where
  "nge a b = nle b a"

text \<open>\<open>xs[i]\<close> on an array of numbers: \<open>undefined\<close> past the end.\<close>

definition numAt :: "number list \<Rightarrow> nat \<Rightarrow> number" where
  "numAt xs i = (if i < length xs then xs ! i else NaN)"

text \<open>\<open>row[row.length - 1]\<close>: index \<open>-1\<close> of an empty array is \<open>undefined\<close>.\<close>

definition lastEntry :: "number list \<Rightarrow> number" where
  "lastEntry row = (if row = [] then NaN else last row)"

text \<open>\<open>names[i]\<close> on an array of strings: \<open>undefined\<close> (here \<open>None\<close>) past the end.\<close>

definition nameAt :: "string list \<Rightarrow> nat \<Rightarrow> string option" where
  "nameAt xs i = (if i < length xs then Some (xs ! i) else None)"

text \<open>Decimal rendering of a natural number, as the template literal \<open>`s${i + 1}`\<close> needs it.\<close>

definition digitChar :: "nat \<Rightarrow> char" where
  "digitChar d = ''0123456789'' ! d"

function showNat :: "nat \<Rightarrow> string" where
  "showNat n = (if n < 10 then [digitChar n] else showNat (n div 10) @ [digitChar (n mod 10)])"
  by pat_completeness auto
termination
  by (relation "measure (\<lambda>n. n)") auto

declare showNat.simps [simp del]

definition slackName :: "nat \<Rightarrow> string" where
  "slackName i = ''s'' @ showNat (i + 1)"

section \<open>Data model of \<open>lib/simplex-solver.ts\<close>\<close>

record SimplexTableau =
  tableau :: "number list list"
  basicVariables :: "string list"
  nonBasicVariables :: "string list"
  objectiveRow :: "number list"
  rhsColumn :: "number list"
  iteration :: nat
  isOptimal :: bool
  isUnbounded :: bool
  pivotRow :: "nat option"
  pivotColumn :: "nat option"
  enteringVariable :: "string option"
  leavingVariable :: "string option"

text \<open>
  A step of the log. The free-text fields \<open>description\<close> and \<open>details\<close> are left
  out; the optional \<open>tableau\<close> field is a reference to a tableau object.
\<close>

record SimplexStep =
  stepIteration :: nat
  action :: string
  stepTableau :: "nat option"

record StandardForm =
  objectiveCoefficients :: "number list"
  constraintMatrix :: "number list list"
  rhsVector :: "number list"
  variables :: "string list"
  originalVariables :: "string list"
  slackVariables :: "string list"
  numOriginalVars :: nat
  numConstraints :: nat

record ExtractedSolution =
  exOptimalValue :: number
  exOptimalSolution :: "string \<rightharpoonup> number"

record SimplexSolution =
  solIsOptimal :: bool
  solIsUnbounded :: bool
  isFeasible :: bool
  optimalValue :: number
  optimalSolution :: "string \<rightharpoonup> number"
  iterations :: "SimplexTableau list"
  steps :: "SimplexStep list"

text \<open>
  What the source can throw, and the one place where the model stops:
  \<open>TypeError\<close> is the exception of reading a property of \<open>undefined\<close>;
  \<open>UndefinedName\<close> marks a write of \<open>undefined\<close> into, or past the end of, an array
  of names, which the source performs silently and a list of strings cannot hold.
\<close>

datatype error = TypeError | UndefinedName

section \<open>Standard form and initial tableau\<close>

definition convertToStandardForm ::
  "number list \<Rightarrow> number list list \<Rightarrow> number list \<Rightarrow> bool \<Rightarrow> string list \<Rightarrow> StandardForm" where
  "convertToStandardForm objCoefs cMatrix rhs isMaximization vars =
     (let objCoeffs = (if isMaximization then objCoefs else map nneg objCoefs);
          nConstraints = length cMatrix;
          nOriginalVars = length objCoefs;
          extendedMatrix =
            map (\<lambda>i. (cMatrix ! i) @
                      map (\<lambda>j. if i = j then Num 1 else Num 0) [0..<nConstraints])
                [0..<nConstraints];
          extendedObjCoeffs = objCoeffs @ replicate nConstraints (Num 0);
          slackVars = map slackName [0..<nConstraints];
          allVariables = vars @ slackVars
      in \<lparr> objectiveCoefficients = extendedObjCoeffs,
           constraintMatrix = extendedMatrix,
           rhsVector = rhs,
           variables = allVariables,
           originalVariables = vars,
           slackVariables = slackVars,
           numOriginalVars = nOriginalVars,
           numConstraints = nConstraints \<rparr>)"

definition createInitialTableau :: "StandardForm \<Rightarrow> SimplexTableau" where
  "createInitialTableau sf =
     (let tab =
            map (\<lambda>i. (constraintMatrix sf ! i) @ [numAt (rhsVector sf) i])
                [0..<length (constraintMatrix sf)]
            @ [map nneg (objectiveCoefficients sf) @ [Num 0]]
      in \<lparr> tableau = tab,
           basicVariables = slackVariables sf,
           nonBasicVariables = take (numOriginalVars sf) (variables sf),
           objectiveRow = last tab,
           rhsColumn = map lastEntry tab,
           iteration = 0,
           isOptimal = False,
           isUnbounded = False,
           pivotRow = None,
           pivotColumn = None,
           enteringVariable = None,
           leavingVariable = None \<rparr>)"

section \<open>Pivot selection\<close>

text \<open>
  The loop of \<open>findEnteringVariable\<close> over \<open>j = 0, ..., searchColumns - 1\<close>, with
  its two locals \<open>minValue\<close> and \<open>enteringColumn\<close> (\<open>-1\<close> is \<open>None\<close>).
\<close>

fun enteringLoop :: "number list \<Rightarrow> nat list \<Rightarrow> number \<Rightarrow> nat option \<Rightarrow> nat option" where
  "enteringLoop objRow [] minValue enteringColumn = enteringColumn"
| "enteringLoop objRow (j # js) minValue enteringColumn =
     (if nlt (numAt objRow j) minValue
      then enteringLoop objRow js (numAt objRow j) (Some j)
      else enteringLoop objRow js minValue enteringColumn)"

definition findEnteringVariable :: "SimplexTableau \<Rightarrow> nat option" where
  "findEnteringVariable t =
     (let searchColumns = length (nonBasicVariables t)
      in enteringLoop (objectiveRow t) [0..<searchColumns] (Num 0) None)"

text \<open>
  \<open>ratio < minRatio\<close>, where \<open>minRatio\<close> starts as \<open>Number.POSITIVE_INFINITY\<close>,
  written \<open>None\<close>, and is a ratio afterwards.
\<close>

fun ratioLess :: "number \<Rightarrow> number option \<Rightarrow> bool" where
  "ratioLess (Num r) None = True"
| "ratioLess NaN None = False"
| "ratioLess r (Some m) = nlt r m"

text \<open>
  The loop of \<open>findLeavingVariable\<close> over \<open>i = 0, ..., rhsColumn.length - 2\<close>.
  \<open>tableau.tableau[i][enteringColumn]\<close> throws when the matrix has no row \<open>i\<close>.
\<close>

fun leavingLoop ::
  "number list list \<Rightarrow> number list \<Rightarrow> nat \<Rightarrow> nat list \<Rightarrow> number option \<Rightarrow> nat option
     \<Rightarrow> error + nat option" where
  "leavingLoop tab rhsCol enteringColumn [] minRatio leavingRow = Inr leavingRow"
| "leavingLoop tab rhsCol enteringColumn (i # rest) minRatio leavingRow =
     (if length tab \<le> i then Inl TypeError
      else
        let pivotElement = numAt (tab ! i) enteringColumn
        in if ngt pivotElement (Num 0)
           then
             let ratio = ndiv (numAt rhsCol i) pivotElement
             in if ratioLess ratio minRatio
                then leavingLoop tab rhsCol enteringColumn rest (Some ratio) (Some i)
                else leavingLoop tab rhsCol enteringColumn rest minRatio leavingRow
           else leavingLoop tab rhsCol enteringColumn rest minRatio leavingRow)"

definition findLeavingVariable :: "SimplexTableau \<Rightarrow> nat \<Rightarrow> error + nat option" where
  "findLeavingVariable t enteringColumn =
     leavingLoop (tableau t) (rhsColumn t) enteringColumn
       [0..<length (rhsColumn t) - 1] None None"

section \<open>The pivot operation\<close>

text \<open>
  The inner elimination loop on one row: entry \<open>j\<close> becomes
  \<open>row[j] - multiplier * pivotRow[j]\<close>, where the pivot row has been normalised
  before and may be shorter than the row.
\<close>

definition eliminateRow :: "number list \<Rightarrow> number \<Rightarrow> number list \<Rightarrow> number list" where
  "eliminateRow row multiplier normRow =
     map (\<lambda>j. nsub (row ! j) (nmul multiplier (numAt normRow j))) [0..<length row]"

text \<open>
  \<open>pivotOperation\<close> copies every row of the matrix and both lists of names, and
  writes to the copies only; the tableau it is given is read, never written.
\<close>

definition pivotOperation :: "SimplexTableau \<Rightarrow> nat \<Rightarrow> nat \<Rightarrow> error + SimplexTableau" where
  "pivotOperation t pRow pColumn =
     (if length (tableau t) \<le> pRow then Inl TypeError
      else
        let pivotElement = numAt (tableau t ! pRow) pColumn;
            normRow = map (\<lambda>x. ndiv x pivotElement) (tableau t ! pRow);
            newTableau =
              map (\<lambda>i. if i \<noteq> pRow
                        then eliminateRow (tableau t ! i) (numAt (tableau t ! i) pColumn) normRow
                        else normRow)
                  [0..<length (tableau t)]
        in if length (basicVariables t) \<le> pRow \<or> length (nonBasicVariables t) \<le> pColumn
           then Inl UndefinedName
           else
             let tmp = basicVariables t ! pRow;
                 newBasicVariables = (basicVariables t)[pRow := nonBasicVariables t ! pColumn];
                 newNonBasicVariables = (nonBasicVariables t)[pColumn := tmp]
             in Inr \<lparr> tableau = newTableau,
                      basicVariables = newBasicVariables,
                      nonBasicVariables = newNonBasicVariables,
                      objectiveRow = last newTableau,
                      rhsColumn = map lastEntry newTableau,
                      iteration = iteration t + 1,
                      isOptimal = False,
                      isUnbounded = False,
                      pivotRow = Some pRow,
                      pivotColumn = Some pColumn,
                      enteringVariable = None,
                      leavingVariable = None \<rparr>)"

text \<open>The optimality check after a pivot: no entry before the last is below \<open>-1e-10\<close>.\<close>

definition isOptimalCheck :: "SimplexTableau \<Rightarrow> bool" where
  "isOptimalCheck t =
     list_all (\<lambda>v. \<not> nlt v (Num (- (1 / 10 ^ 10)))) (butlast (objectiveRow t))"

section \<open>Solution extraction\<close>

definition extractSolution :: "SimplexTableau \<Rightarrow> string list \<Rightarrow> bool \<Rightarrow> ExtractedSolution" where
  "extractSolution t origVars isMaximization =
     (let zeros = fold (\<lambda>v m. m(v \<mapsto> Num 0)) origVars Map.empty;
          solution =
            fold (\<lambda>i m. if basicVariables t ! i \<in> set origVars
                         then m(basicVariables t ! i \<mapsto> numAt (rhsColumn t) i) else m)
                 [0..<length (basicVariables t)] zeros;
          raw = lastEntry (rhsColumn t);
          optValue = (if isMaximization then raw else nneg raw)
      in \<lparr> exOptimalValue = optValue, exOptimalSolution = solution \<rparr>)"

section \<open>The solver loop, on a store of tableau objects\<close>

text \<open>
  \<open>solve\<close> keeps references to tableau objects: the local \<open>currentTableau\<close>, the
  entries of the array \<open>iterations\<close> and the \<open>tableau\<close> field of a step all point
  to objects that the loop goes on writing to. The store \<open>heap\<close> holds every tableau
  object allocated so far, an address being an index into it.
\<close>

record solverState =
  heap :: "SimplexTableau list"
  currentTableau :: nat
  history :: "nat list"
  stepLog :: "SimplexStep list"

definition deref :: "solverState \<Rightarrow> nat \<Rightarrow> SimplexTableau" where
  "deref s a = heap s ! a"

definition current :: "solverState \<Rightarrow> SimplexTableau" where
  "current s = deref s (currentTableau s)"

text \<open>An assignment to fields of the object \<open>currentTableau\<close> points to.\<close>

definition writeCurrent :: "(SimplexTableau \<Rightarrow> SimplexTableau) \<Rightarrow> solverState \<Rightarrow> solverState" where
  "writeCurrent f s = s\<lparr> heap := (heap s)[currentTableau s := f (current s)] \<rparr>"

definition pushStep :: "SimplexStep \<Rightarrow> solverState \<Rightarrow> solverState" where
  "pushStep st s = s\<lparr> stepLog := stepLog s @ [st] \<rparr>"

definition maxIterations :: nat where
  "maxIterations = 50"

datatype flow = Break | Continue

text \<open>
  One pass through the body of the \<open>while\<close> loop, entered with the counter already
  incremented to \<open>iterationCount\<close>.
\<close>

definition loopBody :: "nat \<Rightarrow> solverState \<Rightarrow> error + (flow \<times> solverState)" where
  "loopBody iterationCount s =
     (case findEnteringVariable (current s) of
        None \<Rightarrow> Inr (Break, writeCurrent (\<lambda>t. t\<lparr> isOptimal := True \<rparr>) s)
      | Some enteringColumn \<Rightarrow>
          let s1 = writeCurrent (\<lambda>t. t\<lparr> enteringVariable := nameAt (nonBasicVariables t) enteringColumn,
                                        pivotColumn := Some enteringColumn \<rparr>) s;
              s2 = pushStep \<lparr> stepIteration = iterationCount, action = ''entering_variable'',
                              stepTableau = None \<rparr> s1
          in case findLeavingVariable (current s2) enteringColumn of
               Inl e \<Rightarrow> Inl e
             | Inr None \<Rightarrow>
                 Inr (Break,
                      pushStep \<lparr> stepIteration = iterationCount, action = ''unbounded'',
                                 stepTableau = None \<rparr>
                        (writeCurrent (\<lambda>t. t\<lparr> isUnbounded := True \<rparr>) s2))
             | Inr (Some leavingRow) \<Rightarrow>
                 let s3 = writeCurrent (\<lambda>t. t\<lparr> leavingVariable := nameAt (basicVariables t) leavingRow,
                                               pivotRow := Some leavingRow \<rparr>) s2;
                     s4 = pushStep \<lparr> stepIteration = iterationCount, action = ''leaving_variable'',
                                     stepTableau = None \<rparr> s3
                 in case pivotOperation (current s4) leavingRow enteringColumn of
                      Inl e \<Rightarrow> Inl e
                    | Inr newTableau \<Rightarrow>
                        let newAddr = length (heap s4);
                            s5 = s4\<lparr> heap := heap s4 @ [newTableau\<lparr> iteration := iterationCount \<rparr>] \<rparr>;
                            s6 = s5\<lparr> history := history s5 @ [newAddr] \<rparr>;
                            s7 = pushStep \<lparr> stepIteration = iterationCount, action = ''pivot'',
                                            stepTableau = Some newAddr \<rparr> s6;
                            s8 = s7\<lparr> currentTableau := newAddr \<rparr>
                        in if isOptimalCheck (current s8)
                           then Inr (Continue,
                                     pushStep \<lparr> stepIteration = iterationCount, action = ''optimal'',
                                                stepTableau = None \<rparr>
                                       (writeCurrent (\<lambda>t. t\<lparr> isOptimal := True \<rparr>) s8))
                           else Inr (Continue, s8))"

text \<open>
  The \<open>while\<close> loop. It returns the final counter with the final state, or the
  exception that ended it.
\<close>

function simplexLoop :: "nat \<Rightarrow> solverState \<Rightarrow> error + (nat \<times> solverState)" where
  "simplexLoop iterationCount s =
     (if \<not> isOptimal (current s) \<and> \<not> isUnbounded (current s) \<and> iterationCount < maxIterations
      then
        (case loopBody (iterationCount + 1) s of
           Inl e \<Rightarrow> Inl e
         | Inr (Break, s') \<Rightarrow> Inr (iterationCount + 1, s')
         | Inr (Continue, s') \<Rightarrow> simplexLoop (iterationCount + 1) s')
      else Inr (iterationCount, s))"
  by pat_completeness auto
termination
  by (relation "measure (\<lambda>(n, s). maxIterations - n)") auto

declare simplexLoop.simps [simp del]

text \<open>The state in which the loop is entered: the initial tableau is object \<open>0\<close>.\<close>

definition initialState :: "StandardForm \<Rightarrow> solverState" where
  "initialState sf =
     \<lparr> heap = [createInitialTableau sf],
       currentTableau = 0,
       history = [0],
       stepLog = [\<lparr> stepIteration = 0, action = ''convert_standard'', stepTableau = None \<rparr>,
                  \<lparr> stepIteration = 0, action = ''initial_tableau'', stepTableau = Some 0 \<rparr>] \<rparr>"

definition solveRun ::
  "number list \<Rightarrow> number list list \<Rightarrow> number list \<Rightarrow> bool \<Rightarrow> string list
     \<Rightarrow> error + (nat \<times> solverState)" where
  "solveRun objCoefs cMatrix rhs isMaximization vars =
     simplexLoop 0 (initialState (convertToStandardForm objCoefs cMatrix rhs isMaximization vars))"

definition buildSolution :: "string list \<Rightarrow> bool \<Rightarrow> solverState \<Rightarrow> SimplexSolution" where
  "buildSolution origVars isMaximization s =
     (let solution = extractSolution (current s) origVars isMaximization
      in \<lparr> solIsOptimal = isOptimal (current s),
           solIsUnbounded = isUnbounded (current s),
           isFeasible = True,
           optimalValue = exOptimalValue solution,
           optimalSolution = exOptimalSolution solution,
           iterations = map (deref s) (history s),
           steps = stepLog s \<rparr>)"

definition solve ::
  "number list \<Rightarrow> number list list \<Rightarrow> number list \<Rightarrow> bool \<Rightarrow> string list
     \<Rightarrow> error + SimplexSolution" where
  "solve objCoefs cMatrix rhs isMaximization vars =
     (case solveRun objCoefs cMatrix rhs isMaximization vars of
        Inl e \<Rightarrow> Inl e
      | Inr (n, s) \<Rightarrow> Inr (buildSolution vars isMaximization s))"

section \<open>Sensitivity analysis (\<open>lib/sensitivity-analysis.ts\<close>)\<close>

record ShadowPrice =
  constraint :: string
  price :: number

record ReducedCost =
  variable :: string
  cost :: number

record SensitivityResult =
  shadowPrices :: "ShadowPrice list"
  reducedCosts :: "ReducedCost list"

text \<open>\<open>name || fallback\<close> on strings: the empty string is falsy.\<close>

definition orElse :: "string \<Rightarrow> string \<Rightarrow> string" where
  "orElse name fallback = (if name = [] then fallback else name)"

text \<open>
  With an empty history both \<open>finalTableau\<close> and \<open>initialTableau\<close> are
  \<open>undefined\<close>, and reading \<open>initialTableau.nonBasicVariables\<close> throws.
\<close>

definition performSensitivityAnalysis :: "SimplexSolution \<Rightarrow> error + SensitivityResult" where
  "performSensitivityAnalysis solution =
     (if iterations solution = [] then Inl TypeError
      else
        let finalTableau = iterations solution ! (length (iterations solution) - 1);
            initialTableau = iterations solution ! 0;
            nOriginalVars = length (nonBasicVariables initialTableau);
            nConstraints = length (basicVariables initialTableau);
            sPrices =
              map (\<lambda>i. \<lparr> constraint = orElse (basicVariables initialTableau ! i) (slackName i),
                          price = nneg (numAt (objectiveRow finalTableau) (nOriginalVars + i)) \<rparr>)
                  [0..<nConstraints];
            rCosts =
              map (\<lambda>i. \<lparr> variable = nonBasicVariables initialTableau ! i,
                          cost = numAt (objectiveRow finalTableau) i \<rparr>)
                  [0..<nOriginalVars]
        in Inr \<lparr> shadowPrices = sPrices, reducedCosts = rCosts \<rparr>)"

section \<open>The graphical method for two variables (\<open>computeGraphData\<close>)\<close>

datatype operator = LessEq | GreaterEq | Equal

datatype problemType = Maximize | Minimize

record Constraint =
  conCoefficients :: "number list"
  conOperator :: operator
  conRhs :: number

record LinearProgrammingProblem =
  probType :: problemType
  objCoefficients :: "number list"
  constraints :: "Constraint list"
  probVariables :: "string list"

record Point =
  xCoord :: number
  yCoord :: number

text \<open>The two axis intercepts a constraint contributes; \<open>a !== 0\<close> holds for \<open>NaN\<close>.\<close>

definition intercepts :: "Constraint \<Rightarrow> Point list" where
  "intercepts c =
     (let a = numAt (conCoefficients c) 0; b = numAt (conCoefficients c) 1
      in (if a \<noteq> Num 0 then [\<lparr> xCoord = ndiv (conRhs c) a, yCoord = Num 0 \<rparr>] else []) @
         (if b \<noteq> Num 0 then [\<lparr> xCoord = Num 0, yCoord = ndiv (conRhs c) b \<rparr>] else []))"

definition intersection :: "Constraint \<Rightarrow> Constraint \<Rightarrow> Point option" where
  "intersection c1 c2 =
     (let a1 = numAt (conCoefficients c1) 0; b1 = numAt (conCoefficients c1) 1;
          a2 = numAt (conCoefficients c2) 0; b2 = numAt (conCoefficients c2) 1;
          det = nsub (nmul a1 b2) (nmul a2 b1)
      in if nlt (nabs det) (Num (1 / 10 ^ 8)) then None
         else Some \<lparr> xCoord = ndiv (nsub (nmul (conRhs c1) b2) (nmul (conRhs c2) b1)) det,
                     yCoord = ndiv (nsub (nmul a1 (conRhs c2)) (nmul a2 (conRhs c1))) det \<rparr>)"

definition pairIntersections :: "Constraint list \<Rightarrow> Point list" where
  "pairIntersections cs =
     concat (map (\<lambda>i. concat (map (\<lambda>j. case intersection (cs ! i) (cs ! j) of
                                          None \<Rightarrow> [] | Some p \<Rightarrow> [p])
                                    [i + 1..<length cs]))
                 [0..<length cs])"

definition candidates :: "LinearProgrammingProblem \<Rightarrow> Point list" where
  "candidates problem =
     [\<lparr> xCoord = Num 0, yCoord = Num 0 \<rparr>] @ concat (map intercepts (constraints problem)) @
     pairIntersections (constraints problem)"

text \<open>The callback of \<open>constraints.every\<close> in the feasibility filter.\<close>

definition satisfiesConstraint :: "Point \<Rightarrow> Constraint \<Rightarrow> bool" where
  "satisfiesConstraint p c =
     (let a = numAt (conCoefficients c) 0; b = numAt (conCoefficients c) 1;
          lhs = nadd (nmul a (xCoord p)) (nmul b (yCoord p))
      in if conOperator c = LessEq then nle lhs (nadd (conRhs c) (Num (1 / 10 ^ 8)))
         else if conOperator c = GreaterEq then nge lhs (nsub (conRhs c) (Num (1 / 10 ^ 8)))
         else nle (nabs (nsub lhs (conRhs c))) (Num (1 / 10 ^ 8)))"

definition isFeasiblePoint :: "Constraint list \<Rightarrow> Point \<Rightarrow> bool" where
  "isFeasiblePoint cs p \<longleftrightarrow>
     list_all (satisfiesConstraint p) cs \<and> nge (xCoord p) (Num 0) \<and> nge (yCoord p) (Num 0)"

definition closePoints :: "Point \<Rightarrow> Point \<Rightarrow> bool" where
  "closePoints s p \<longleftrightarrow>
     nlt (nabs (nsub (xCoord s) (xCoord p))) (Num (1 / 10 ^ 6)) \<and>
     nlt (nabs (nsub (yCoord s) (yCoord p))) (Num (1 / 10 ^ 6))"

text \<open>\<open>dedupe\<close>: the \<open>forEach\<close> over the points, with the array \<open>seen\<close> as its state.\<close>

definition dedupeStep :: "Point list \<Rightarrow> Point \<Rightarrow> Point list" where
  "dedupeStep seen p = (if list_ex (\<lambda>s. closePoints s p) seen then seen else seen @ [p])"

definition dedupe :: "Point list \<Rightarrow> Point list" where
  "dedupe points = foldl dedupeStep [] points"

definition feasiblePoints :: "LinearProgrammingProblem \<Rightarrow> Point list" where
  "feasiblePoints problem =
     dedupe (filter (isFeasiblePoint (constraints problem)) (candidates problem))"

text \<open>
  The scan for the optimum: the \<open>forEach\<close> over the feasible points, with the locals
  \<open>optimalPoint\<close> (\<open>null\<close> is \<open>None\<close>) and \<open>optimalValue\<close> as its state.
\<close>

definition objectiveAt :: "number \<Rightarrow> number \<Rightarrow> Point \<Rightarrow> number" where
  "objectiveAt objA objB p = nadd (nmul objA (xCoord p)) (nmul objB (yCoord p))"

definition optimumStep ::
  "bool \<Rightarrow> number \<Rightarrow> number \<Rightarrow> Point option \<times> number \<Rightarrow> Point \<Rightarrow> Point option \<times> number" where
  "optimumStep isMax objA objB st p =
     (let val = objectiveAt objA objB p
      in case fst st of
           None \<Rightarrow> (Some p, val)
         | Some q \<Rightarrow>
             if (if isMax then ngt val (snd st) else nlt val (snd st))
             then (Some p, val) else st)"

definition optimumScan :: "bool \<Rightarrow> number \<Rightarrow> number \<Rightarrow> Point list \<Rightarrow> Point option \<times> number" where
  "optimumScan isMax objA objB points = foldl (optimumStep isMax objA objB) (None, Num 0) points"

text \<open>
  \<open>computeGraphData\<close> as far as its optimum goes (the polygon ordering, the constraint
  lines and the plot bounds of the component's variant are not part of the model).
\<close>

record GraphData =
  optimalPoint :: "Point option"
  graphOptimalValue :: number

definition computeGraphData :: "LinearProgrammingProblem \<Rightarrow> GraphData" where
  "computeGraphData problem =
     (let objA = numAt (objCoefficients problem) 0;
          objB = numAt (objCoefficients problem) 1;
          isMax = (probType problem = Maximize);
          res = optimumScan isMax objA objB (feasiblePoints problem)
      in \<lparr> optimalPoint = fst res, graphOptimalValue = snd res \<rparr>)"

section \<open>Predicates used in the statements\<close>

text \<open>
  A tableau as \<open>solve\<close> builds it: one right-hand side per row of the matrix, and one
  basic variable per row but the last.
\<close>

definition wfTableau :: "SimplexTableau \<Rightarrow> bool" where
  "wfTableau t \<longleftrightarrow>
     length (rhsColumn t) = length (tableau t) \<and>
     Suc (length (basicVariables t)) = length (tableau t)"

text \<open>The fields of a tableau object that no later write touches.\<close>

definition frozen :: "SimplexTableau \<Rightarrow> SimplexTableau \<Rightarrow> bool" where
  "frozen t t' \<longleftrightarrow>
     tableau t' = tableau t \<and> basicVariables t' = basicVariables t \<and>
     nonBasicVariables t' = nonBasicVariables t \<and> objectiveRow t' = objectiveRow t \<and>
     rhsColumn t' = rhsColumn t \<and> iteration t' = iteration t"

definition heapExt :: "SimplexTableau list \<Rightarrow> SimplexTableau list \<Rightarrow> bool" where
  "heapExt h h' \<longleftrightarrow> length h \<le> length h' \<and> (\<forall>a < length h. frozen (h ! a) (h' ! a))"

definition flagsExclusive :: "SimplexTableau \<Rightarrow> bool" where
  "flagsExclusive t \<longleftrightarrow> \<not> (isOptimal t \<and> isUnbounded t)"

text \<open>
  The invariant of the loop: the current tableau is the object allocated last, the
  history lists every object in allocation order, and only the current tableau can
  carry a flag.
\<close>

definition stateInv :: "solverState \<Rightarrow> bool" where
  "stateInv s \<longleftrightarrow>
     heap s \<noteq> [] \<and>
     currentTableau s = length (heap s) - 1 \<and>
     history s = [0..<length (heap s)] \<and>
     (\<forall>a < length (heap s). wfTableau (heap s ! a)) \<and>
     (\<forall>a < length (heap s) - 1. \<not> isOptimal (heap s ! a) \<and> \<not> isUnbounded (heap s ! a)) \<and>
     flagsExclusive (current s)"




definition annotate :: "nat \<Rightarrow> nat \<Rightarrow> SimplexTableau \<Rightarrow> SimplexTableau" where
  "annotate r c t =
     t\<lparr> enteringVariable := nameAt (nonBasicVariables t) c, pivotColumn := Some c,
        leavingVariable := nameAt (basicVariables t) r, pivotRow := Some r \<rparr>"

definition normalizedRow :: "number list list \<Rightarrow> nat \<Rightarrow> nat \<Rightarrow> number list" where
  "normalizedRow tab r c = map (\<lambda>x. ndiv x (numAt (tab ! r) c)) (tab ! r)"

definition pivotedMatrix :: "number list list \<Rightarrow> nat \<Rightarrow> nat \<Rightarrow> number list list" where
  "pivotedMatrix tab r c =
     map (\<lambda>i. if i \<noteq> r then eliminateRow (tab ! i) (numAt (tab ! i) c) (normalizedRow tab r c)
               else normalizedRow tab r c)
         [0..<length tab]"






text \<open>
  The column the scan of \<open>findEnteringVariable\<close> settles on among the columns \<open>js\<close>,
  started with the minimum \<open>mv\<close>: the first one below \<open>mv\<close> that no other is below.
\<close>

definition chosenColumn :: "number list \<Rightarrow> nat list \<Rightarrow> number \<Rightarrow> nat \<Rightarrow> bool" where
  "chosenColumn row js mv c \<longleftrightarrow>
     (\<exists>pre post. js = pre @ c # post \<and> nlt (numAt row c) mv \<and>
        (\<forall>j \<in> set js. \<not> nlt (numAt row j) (numAt row c)) \<and>
        (\<forall>j \<in> set pre. \<not> nle (numAt row j) (numAt row c)))"

text \<open>
  One pass of the loop read on the matrix alone, for a tableau whose objective row and
  right-hand sides are the last row and the last column of its matrix: the matrix after
  the pivot, when the scan over the first \<open>k\<close> columns and the ratio test both find an
  index. \<open>pivotRun k j M\<close> is the matrix after \<open>j\<close> such passes none of which reaches a
  matrix that \<open>isOptimal\<close> accepts.
\<close>

definition matrixOptimal :: "number list list \<Rightarrow> bool" where
  "matrixOptimal M \<longleftrightarrow> list_all (\<lambda>v. \<not> nlt v (Num (- (1 / 10 ^ 10)))) (butlast (last M))"

definition matrixStep :: "nat \<Rightarrow> number list list \<Rightarrow> number list list option" where
  "matrixStep k M =
     (case enteringLoop (last M) [0..<k] (Num 0) None of
        None \<Rightarrow> None
      | Some c \<Rightarrow>
          (case leavingLoop M (map lastEntry M) c [0..<length M - 1] None None of
             Inr (Some r) \<Rightarrow> Some (pivotedMatrix M r c)
           | _ \<Rightarrow> None))"

fun pivotRun :: "nat \<Rightarrow> nat \<Rightarrow> number list list \<Rightarrow> number list list option" where
  "pivotRun k 0 M = Some M"
| "pivotRun k (Suc j) M =
     (case matrixStep k M of
        None \<Rightarrow> None
      | Some M' \<Rightarrow> if matrixOptimal M' then None else pivotRun k j M')"

definition regular :: "SimplexTableau \<Rightarrow> bool" where
  "regular t \<longleftrightarrow> objectiveRow t = last (tableau t) \<and> rhsColumn t = map lastEntry (tableau t)"

section \<open>Example problems\<close>

text \<open>
  The problem of \<open>examples/simplex-example.ts\<close>, a problem on which a slack variable
  has to re-enter the basis, and a problem whose feasible region is the origin.
\<close>

definition refineryRun :: "error + nat \<times> solverState" where
  "refineryRun =
     solveRun [Num 3, Num 5] [[Num 1, Num 0], [Num 0, Num 2], [Num 3, Num 2]]
       [Num 4, Num 12, Num 18] True [''x1'', ''x2'']"

definition slackReentryRun :: "error + nat \<times> solverState" where
  "slackReentryRun =
     solveRun [Num 3, Num 2] [[Num 1, Num 0], [Num 4, Num 1], [Num 0, Num 1]]
       [Num 2, Num 9, Num 5] True [''x1'', ''x2'']"

definition originRun :: "error + nat \<times> solverState" where
  "originRun =
     solveRun [Num 1, Num 1] [[Num 1, Num 0], [Num 0, Num 1]] [Num 0, Num 0] True [''x1'', ''x2'']"

definition refinerySolution :: "error + SimplexSolution" where
  "refinerySolution =
     solve [Num 3, Num 5] [[Num 1, Num 0], [Num 0, Num 2], [Num 3, Num 2]]
       [Num 4, Num 12, Num 18] True [''x1'', ''x2'']"

definition slackReentrySolution :: "error + SimplexSolution" where
  "slackReentrySolution =
     solve [Num 3, Num 2] [[Num 1, Num 0], [Num 4, Num 1], [Num 0, Num 1]]
       [Num 2, Num 9, Num 5] True [''x1'', ''x2'']"

definition slackReentryProblem :: LinearProgrammingProblem where
  "slackReentryProblem =
     \<lparr> probType = Maximize, objCoefficients = [Num 3, Num 2],
       constraints =
         [\<lparr> conCoefficients = [Num 1, Num 0], conOperator = LessEq, conRhs = Num 2 \<rparr>,
          \<lparr> conCoefficients = [Num 4, Num 1], conOperator = LessEq, conRhs = Num 9 \<rparr>,
          \<lparr> conCoefficients = [Num 0, Num 1], conOperator = LessEq, conRhs = Num 5 \<rparr>],
       probVariables = [''x1'', ''x2''] \<rparr>"

definition originSolution :: "error + SimplexSolution" where
  "originSolution =
     solve [Num 1, Num 1] [[Num 1, Num 0], [Num 0, Num 1]] [Num 0, Num 0] True [''x1'', ''x2'']"

definition refineryStart :: solverState where
  "refineryStart =
     initialState (convertToStandardForm [Num 3, Num 5]
       [[Num 1, Num 0], [Num 0, Num 2], [Num 3, Num 2]] [Num 4, Num 12, Num 18] True [''x1'', ''x2''])"

text \<open>
  A degenerate problem (after Beale) on which the pivots return to the initial matrix
  every six passes.
\<close>

definition cyclingMatrix :: "number list list" where
  "cyclingMatrix =
     [[Num (1 / 4), Num (- 8), Num (- 1), Num 9, Num 1, Num 0, Num 1, Num 0, Num 0],
      [Num (1 / 2), Num (- 12), Num (- (1 / 2)), Num 3, Num 0, Num 1, Num 0, Num 1, Num 0],
      [Num (- (3 / 4)), Num 20, Num (- (1 / 2)), Num 6, Num 0, Num 0, Num 0, Num 0, Num 0]]"

definition cyclingRun :: "error + nat \<times> solverState" where
  "cyclingRun =
     solveRun [Num (3 / 4), Num (- 20), Num (1 / 2), Num (- 6), Num 0, Num 0]
       [[Num (1 / 4), Num (- 8), Num (- 1), Num 9, Num 1, Num 0],
        [Num (1 / 2), Num (- 12), Num (- (1 / 2)), Num 3, Num 0, Num 1]]
       [Num 0, Num 0] True [''x4'', ''x5'', ''x6'', ''x7'', ''x1'', ''x2'']"

definition cyclingSolution :: "error + SimplexSolution" where
  "cyclingSolution =
     solve [Num (3 / 4), Num (- 20), Num (1 / 2), Num (- 6), Num 0, Num 0]
       [[Num (1 / 4), Num (- 8), Num (- 1), Num 9, Num 1, Num 0],
        [Num (1 / 2), Num (- 12), Num (- (1 / 2)), Num 3, Num 0, Num 1]]
       [Num 0, Num 0] True [''x4'', ''x5'', ''x6'', ''x7'', ''x1'', ''x2'']"

section \<open>The loop keeps its invariant and never throws\<close>

lemma enteringLoop_range:
  "enteringLoop row js mv col = Some j \<Longrightarrow> col = Some j \<or> j \<in> set js"
  by (induction js arbitrary: mv col) (auto split: if_splits)

lemma findEnteringVariable_range:
  "findEnteringVariable t = Some c \<Longrightarrow> c < length (nonBasicVariables t)"
  unfolding findEnteringVariable_def Let_def
  by (drule enteringLoop_range) auto

lemma leavingLoop_ok:
  "\<forall>i \<in> set rows. i < length tab \<Longrightarrow>
   \<exists>r. leavingLoop tab rhs c rows mr lr = Inr r \<and> (r = lr \<or> (\<exists>i \<in> set rows. r = Some i))"
proof (induction rows arbitrary: mr lr)
  case Nil
  then show ?case by simp
next
  case (Cons i rows)
  then have tl: "\<forall>k \<in> set rows. k < length tab" and hd: "i < length tab" by auto
  show ?case
    using Cons.IH [OF tl, of mr lr]
          Cons.IH [OF tl, of "Some (ndiv (numAt rhs i) (numAt (tab ! i) c))" "Some i"] hd
    by (auto simp: Let_def)
qed

lemma findLeavingVariable_ok:
  assumes "wfTableau t"
  shows "\<exists>r. findLeavingVariable t c = Inr r \<and>
             (\<forall>k. r = Some k \<longrightarrow> k < length (basicVariables t))"
proof -
  have "\<forall>i \<in> set [0..<length (rhsColumn t) - 1]. i < length (tableau t)"
    using assms by (auto simp: wfTableau_def)
  from leavingLoop_ok [OF this, of "rhsColumn t" c None None]
  show ?thesis
    using assms by (auto simp: findLeavingVariable_def wfTableau_def)
qed

lemma pivotOperation_ok:
  assumes "pr < length (tableau t)" "pr < length (basicVariables t)"
    "pc < length (nonBasicVariables t)"
  shows "\<exists>t'. pivotOperation t pr pc = Inr t' \<and>
     length (tableau t') = length (tableau t) \<and>
     length (rhsColumn t') = length (tableau t) \<and>
     length (basicVariables t') = length (basicVariables t) \<and>
     length (nonBasicVariables t') = length (nonBasicVariables t) \<and>
     \<not> isOptimal t' \<and> \<not> isUnbounded t'"
  using assms by (simp add: pivotOperation_def Let_def)

lemma frozen_refl [simp]: "frozen t t"
  by (simp add: frozen_def)

lemma frozen_trans: "frozen a b \<Longrightarrow> frozen b c \<Longrightarrow> frozen a c"
  by (simp add: frozen_def)

lemma heapExt_refl [simp]: "heapExt h h"
  by (simp add: heapExt_def)

lemma heapExt_trans: "heapExt a b \<Longrightarrow> heapExt b c \<Longrightarrow> heapExt a c"
  unfolding heapExt_def using frozen_trans by (meson le_trans less_le_trans)

lemma wfTableau_frozen: "frozen t t' \<Longrightarrow> wfTableau t \<Longrightarrow> wfTableau t'"
  by (simp add: frozen_def wfTableau_def)

lemma pushStep_simps [simp]:
  "heap (pushStep st s) = heap s"
  "currentTableau (pushStep st s) = currentTableau s"
  "history (pushStep st s) = history s"
  "current (pushStep st s) = current s"
  by (simp_all add: pushStep_def current_def deref_def)

lemma writeCurrent_simps [simp]:
  "heap (writeCurrent f s) = (heap s)[currentTableau s := f (current s)]"
  "currentTableau (writeCurrent f s) = currentTableau s"
  "history (writeCurrent f s) = history s"
  by (simp_all add: writeCurrent_def)

lemma current_writeCurrent [simp]:
  "currentTableau s < length (heap s) \<Longrightarrow> current (writeCurrent f s) = f (current s)"
  by (simp add: writeCurrent_def current_def deref_def)

text \<open>A write to the flags or the pivot annotations of the current object.\<close>

lemma stateInv_writeCurrent:
  assumes "stateInv s" "frozen (current s) (f (current s))" "flagsExclusive (f (current s))"
  shows "stateInv (writeCurrent f s)" "heapExt (heap s) (heap (writeCurrent f s))"
proof -
  have cur: "currentTableau s < length (heap s)" "currentTableau s = length (heap s) - 1"
    using assms(1) by (auto simp: stateInv_def)
  have wf: "wfTableau (f (current s))"
    using assms(1,2) cur wfTableau_frozen by (auto simp: stateInv_def current_def deref_def)
  show "stateInv (writeCurrent f s)"
    using assms cur wf
    by (auto simp: stateInv_def nth_list_update)
  show "heapExt (heap s) (heap (writeCurrent f s))"
    using assms(2) cur by (auto simp: heapExt_def nth_list_update current_def deref_def)
qed

lemma stateInv_current_bound: "stateInv s \<Longrightarrow> currentTableau s < length (heap s)"
  by (auto simp: stateInv_def)

lemma stateInv_current_wf: "stateInv s \<Longrightarrow> wfTableau (current s)"
proof -
  assume a: "stateInv s"
  then have "currentTableau s < length (heap s)" by (rule stateInv_current_bound)
  then show ?thesis using a by (simp add: stateInv_def current_def deref_def)
qed

lemma current_alloc:
  "current (s\<lparr> heap := heap s @ [t], history := h, currentTableau := length (heap s) \<rparr>) = t"
  by (simp add: current_def deref_def)

lemma stateInv_pushStep: "stateInv s \<Longrightarrow> stateInv (pushStep st s)"
  by (simp add: stateInv_def)

text \<open>Appending the tableau a pivot produced and making it current.\<close>

lemma stateInv_alloc:
  assumes "stateInv s" "\<not> isOptimal (current s)" "\<not> isUnbounded (current s)"
    "wfTableau t" "\<not> isOptimal t" "\<not> isUnbounded t"
  shows "stateInv (s\<lparr> heap := heap s @ [t], history := history s @ [length (heap s)],
                      currentTableau := length (heap s) \<rparr>)"
proof -
  have old: "\<And>a. a < length (heap s) \<Longrightarrow> \<not> isOptimal (heap s ! a) \<and> \<not> isUnbounded (heap s ! a)"
  proof -
    fix a assume "a < length (heap s)"
    then have "a < length (heap s) - 1 \<or> a = currentTableau s"
      using assms(1) unfolding stateInv_def by linarith
    then show "\<not> isOptimal (heap s ! a) \<and> \<not> isUnbounded (heap s ! a)"
      using assms(1,2,3) by (auto simp: stateInv_def current_def deref_def)
  qed
  show ?thesis
    using assms(1,4,5,6) old
    by (auto simp: stateInv_def nth_append current_def deref_def flagsExclusive_def)
qed

lemma loopBody_ok:
  assumes inv: "stateInv s" and nopt: "\<not> isOptimal (current s)" and nunb: "\<not> isUnbounded (current s)"
  shows "\<exists>f s'. loopBody n s = Inr (f, s') \<and> stateInv s' \<and> heapExt (heap s) (heap s') \<and>
            (f = Break \<longrightarrow> length (heap s') = length (heap s) \<and>
                            (isOptimal (current s') \<or> isUnbounded (current s'))) \<and>
            (f = Continue \<longrightarrow> length (heap s') = Suc (length (heap s)))"
proof (cases "findEnteringVariable (current s)")
  case None
  let ?s' = "writeCurrent (\<lambda>t. t\<lparr> isOptimal := True \<rparr>) s"
  have eq: "loopBody n s = Inr (Break, ?s')"
    using None by (simp add: loopBody_def)
  have "stateInv ?s'" "heapExt (heap s) (heap ?s')"
    using stateInv_writeCurrent [OF inv, of "\<lambda>t. t\<lparr> isOptimal := True \<rparr>"] nunb
    by (simp_all add: frozen_def flagsExclusive_def)
  moreover have "isOptimal (current ?s')"
    using stateInv_current_bound [OF inv] by simp
  ultimately show ?thesis using eq by simp
next
  case (Some c)
  let ?f1 = "\<lambda>t. t\<lparr> enteringVariable := nameAt (nonBasicVariables t) c, pivotColumn := Some c \<rparr>"
  let ?s1 = "writeCurrent ?f1 s"
  let ?s2 = "pushStep \<lparr> stepIteration = n, action = ''entering_variable'', stepTableau = None \<rparr> ?s1"
  have b: "currentTableau s < length (heap s)" by (rule stateInv_current_bound [OF inv])
  have inv1: "stateInv ?s1" and ext1: "heapExt (heap s) (heap ?s1)"
    using stateInv_writeCurrent [OF inv, of ?f1] nopt
    by (simp_all add: frozen_def flagsExclusive_def)
  have inv2: "stateInv ?s2" by (rule stateInv_pushStep [OF inv1])
  have cur2: "current ?s2 = ?f1 (current s)" using b by simp
  have wf2: "wfTableau (current ?s2)"
    by (rule stateInv_current_wf [OF inv2])
  have cb: "c < length (nonBasicVariables (current ?s2))"
    using findEnteringVariable_range [OF Some] cur2 by simp
  from findLeavingVariable_ok [OF wf2, of c]
  obtain r where r: "findLeavingVariable (current ?s2) c = Inr r"
    and rb: "\<And>k. r = Some k \<Longrightarrow> k < length (basicVariables (current ?s2))" by blast
  show ?thesis
  proof (cases r)
    case None
    let ?s' = "pushStep \<lparr> stepIteration = n, action = ''unbounded'', stepTableau = None \<rparr>
                 (writeCurrent (\<lambda>t. t\<lparr> isUnbounded := True \<rparr>) ?s2)"
    have eq: "loopBody n s = Inr (Break, ?s')"
      using Some r None by (simp add: loopBody_def Let_def)
    have nopt2: "\<not> isOptimal (current ?s2)" using cur2 nopt by simp
    have "stateInv (writeCurrent (\<lambda>t. t\<lparr> isUnbounded := True \<rparr>) ?s2)"
      and e: "heapExt (heap ?s2) (heap (writeCurrent (\<lambda>t. t\<lparr> isUnbounded := True \<rparr>) ?s2))"
      using stateInv_writeCurrent [OF inv2, of "\<lambda>t. t\<lparr> isUnbounded := True \<rparr>"] nopt2
      by (simp_all add: frozen_def flagsExclusive_def)
    then have "stateInv ?s'" by (simp add: stateInv_pushStep)
    moreover have "heapExt (heap s) (heap ?s')"
      using heapExt_trans [OF ext1] e by simp
    moreover have "isUnbounded (current ?s')"
      using b by simp
    ultimately show ?thesis using eq by simp
  next
    case (Some k)
    let ?f3 = "\<lambda>t. t\<lparr> leavingVariable := nameAt (basicVariables t) k, pivotRow := Some k \<rparr>"
    let ?s3 = "writeCurrent ?f3 ?s2"
    let ?s4 = "pushStep \<lparr> stepIteration = n, action = ''leaving_variable'', stepTableau = None \<rparr> ?s3"
    have nopt2: "\<not> isOptimal (current ?s2)" "\<not> isUnbounded (current ?s2)"
      using cur2 nopt nunb by simp_all
    have inv3: "stateInv ?s3" and ext3: "heapExt (heap ?s2) (heap ?s3)"
      using stateInv_writeCurrent [OF inv2, of ?f3] nopt2
      by (simp_all add: frozen_def flagsExclusive_def)
    have inv4: "stateInv ?s4" by (rule stateInv_pushStep [OF inv3])
    have cur4: "current ?s4 = ?f3 (current ?s2)" using b by simp
    have wf4: "wfTableau (current ?s4)"
      by (rule stateInv_current_wf [OF inv4])
    have nf4: "\<not> isOptimal (current ?s4)" "\<not> isUnbounded (current ?s4)"
      using cur4 nopt2 by simp_all
    have kb: "k < length (basicVariables (current ?s4))" "k < length (tableau (current ?s4))"
      "c < length (nonBasicVariables (current ?s4))"
      using rb [OF Some] cb wf4 cur4 by (auto simp: wfTableau_def)
    from pivotOperation_ok [OF kb(2) kb(1) kb(3)]
    obtain t' where t': "pivotOperation (current ?s4) k c = Inr t'"
      and len: "length (tableau t') = length (tableau (current ?s4))"
        "length (rhsColumn t') = length (tableau (current ?s4))"
        "length (basicVariables t') = length (basicVariables (current ?s4))"
      and fl: "\<not> isOptimal t'" "\<not> isUnbounded t'" by blast
    let ?t = "t'\<lparr> iteration := n \<rparr>"
    let ?s8 = "?s4\<lparr> heap := heap ?s4 @ [?t], history := history ?s4 @ [length (heap ?s4)],
                     currentTableau := length (heap ?s4) \<rparr>"
    have wft: "wfTableau ?t" using len wf4 by (simp add: wfTableau_def)
    have inv8: "stateInv ?s8"
      using stateInv_alloc [OF inv4 nf4 wft] fl by simp
    have ext4: "heapExt (heap s) (heap ?s4)"
      using heapExt_trans [OF ext1] ext3 by simp
    have ext8: "heapExt (heap s) (heap ?s8)"
      using ext4 by (auto simp: heapExt_def nth_append)
    have len8: "length (heap ?s8) = Suc (length (heap s))" by simp
    have b8: "currentTableau ?s8 < length (heap ?s8)" by simp
    let ?s9 = "pushStep \<lparr> stepIteration = n, action = ''pivot'', stepTableau = Some (length (heap ?s4)) \<rparr> ?s8"
    let ?s' = "if isOptimalCheck (current ?s9)
               then pushStep \<lparr> stepIteration = n, action = ''optimal'', stepTableau = None \<rparr>
                      (writeCurrent (\<lambda>t. t\<lparr> isOptimal := True \<rparr>) ?s9)
               else ?s9"
    have s9: "stateInv ?s9" "heap ?s9 = heap ?s8" "current ?s9 = ?t"
      using inv8 current_alloc [where s="?s4" and t="?t"] by (simp_all add: stateInv_pushStep)
    have eq: "loopBody n s = Inr (Continue, ?s')"
      using \<open>findEnteringVariable (current s) = Some c\<close> r Some t'
      by (simp add: loopBody_def Let_def pushStep_def writeCurrent_def current_def deref_def)
    have "stateInv (writeCurrent (\<lambda>t. t\<lparr> isOptimal := True \<rparr>) ?s9)"
      and e9: "heapExt (heap ?s9) (heap (writeCurrent (\<lambda>t. t\<lparr> isOptimal := True \<rparr>) ?s9))"
      using stateInv_writeCurrent [OF s9(1), of "\<lambda>t. t\<lparr> isOptimal := True \<rparr>"] s9(3) fl
      by (simp_all add: frozen_def flagsExclusive_def)
    then have "stateInv ?s'" using s9(1) by (simp add: stateInv_pushStep)
    moreover have "heapExt (heap s) (heap ?s')"
      using heapExt_trans [OF ext8] e9 s9(2) ext8 by (simp split: if_splits)
    moreover have "length (heap ?s') = Suc (length (heap s))"
      by simp
    ultimately show ?thesis using eq by blast
  qed
qed

lemma simplexLoop_stop:
  "isOptimal (current s) \<or> isUnbounded (current s) \<or> \<not> n < maxIterations \<Longrightarrow>
   simplexLoop n s = Inr (n, s)"
  by (subst simplexLoop.simps) auto

lemma simplexLoop_step:
  "\<not> isOptimal (current s) \<Longrightarrow> \<not> isUnbounded (current s) \<Longrightarrow> n < maxIterations \<Longrightarrow>
   simplexLoop n s =
     (case loopBody (n + 1) s of
        Inl e \<Rightarrow> Inl e
      | Inr (Break, s') \<Rightarrow> Inr (n + 1, s')
      | Inr (Continue, s') \<Rightarrow> simplexLoop (n + 1) s')"
  by (subst simplexLoop.simps) simp

lemma simplexLoop_ok:
  "stateInv s \<Longrightarrow> n \<le> maxIterations \<Longrightarrow>
   \<exists>n' s'. simplexLoop n s = Inr (n', s') \<and> stateInv s' \<and> heapExt (heap s) (heap s') \<and>
      n \<le> n' \<and> n' \<le> maxIterations \<and>
      length (heap s') \<le> length (heap s) + (n' - n) \<and>
      (isOptimal (current s') \<or> isUnbounded (current s') \<or>
       (n' = maxIterations \<and> length (heap s') = length (heap s) + (maxIterations - n)))"
proof (induction n s rule: simplexLoop.induct)
  case (1 n s)
  show ?case
  proof (cases "\<not> isOptimal (current s) \<and> \<not> isUnbounded (current s) \<and> n < maxIterations")
    case False
    then have "simplexLoop n s = Inr (n, s)"
      by (intro simplexLoop_stop) blast
    then show ?thesis using False "1.prems" by auto
  next
    case True
    from loopBody_ok [OF "1.prems"(1), of "n + 1"] True
    obtain f s1 where body: "loopBody (n + 1) s = Inr (f, s1)" and inv1: "stateInv s1"
      and ext1: "heapExt (heap s) (heap s1)"
      and br: "f = Break \<Longrightarrow> length (heap s1) = length (heap s) \<and>
                            (isOptimal (current s1) \<or> isUnbounded (current s1))"
      and co: "f = Continue \<Longrightarrow> length (heap s1) = Suc (length (heap s))"
      by blast
    show ?thesis
    proof (cases f)
      case Break
      then have "simplexLoop n s = Inr (n + 1, s1)"
        using True body by (simp add: simplexLoop_step)
      then show ?thesis using br [OF Break] inv1 ext1 True by auto
    next
      case Continue
      then have eq: "simplexLoop n s = simplexLoop (n + 1) s1"
        using True body by (simp add: simplexLoop_step)
      have le: "n + 1 \<le> maxIterations" using True by simp
      from "1.IH" [OF True body refl Continue inv1 le]
      obtain n' s' where r: "simplexLoop (n + 1) s1 = Inr (n', s')" "stateInv s'"
        "heapExt (heap s1) (heap s')" "n + 1 \<le> n'" "n' \<le> maxIterations"
        "length (heap s') \<le> length (heap s1) + (n' - (n + 1))"
        "isOptimal (current s') \<or> isUnbounded (current s') \<or>
           (n' = maxIterations \<and> length (heap s') = length (heap s1) + (maxIterations - (n + 1)))"
        by blast
      have "heapExt (heap s) (heap s')" by (rule heapExt_trans [OF ext1 r(3)])
      then show ?thesis using eq r co [OF Continue] True by auto
    qed
  qed
qed

lemma wfTableau_initial:
  "wfTableau (createInitialTableau (convertToStandardForm c A b mx vars))"
  by (simp add: wfTableau_def createInitialTableau_def convertToStandardForm_def Let_def)

lemma stateInv_initial:
  "stateInv (initialState (convertToStandardForm c A b mx vars))"
  using wfTableau_initial [of c A b mx vars]
  by (simp add: stateInv_def initialState_def current_def deref_def flagsExclusive_def
      createInitialTableau_def Let_def)

lemma solveRun_ok:
  "\<exists>n s. solveRun c A b mx vars = Inr (n, s) \<and> stateInv s \<and> n \<le> maxIterations \<and>
      heapExt [createInitialTableau (convertToStandardForm c A b mx vars)] (heap s) \<and>
      length (heap s) \<le> Suc n \<and>
      (isOptimal (current s) \<or> isUnbounded (current s) \<or>
       (n = maxIterations \<and> length (heap s) = Suc maxIterations))"
proof -
  let ?s0 = "initialState (convertToStandardForm c A b mx vars)"
  from simplexLoop_ok [OF stateInv_initial, of 0 c A b mx vars]
  obtain n s where r: "simplexLoop 0 ?s0 = Inr (n, s)" "stateInv s" "heapExt (heap ?s0) (heap s)"
     "n \<le> maxIterations" "length (heap s) \<le> length (heap ?s0) + (n - 0)"
     "isOptimal (current s) \<or> isUnbounded (current s) \<or>
       (n = maxIterations \<and> length (heap s) = length (heap ?s0) + (maxIterations - 0))"
    by auto
  have h0: "heap ?s0 = [createInitialTableau (convertToStandardForm c A b mx vars)]"
    by (simp add: initialState_def)
  show ?thesis
    using r unfolding h0 solveRun_def by auto
qed

lemma iterations_buildSolution:
  assumes "stateInv s"
  shows "iterations (buildSolution vars mx s) = heap s"
proof -
  have "deref s = (!) (heap s)" by (rule ext) (simp add: deref_def)
  then show ?thesis
    using assms by (simp add: buildSolution_def Let_def stateInv_def map_nth)
qed

lemma last_heap_current: "stateInv s \<Longrightarrow> last (heap s) = current s"
  by (simp add: stateInv_def current_def deref_def last_conv_nth)

section \<open>Results about \<open>solve\<close>\<close>

text \<open>
  Claim C4. For every input, \<open>solve\<close> returns a solution (it never throws), and the
  solution has \<open>isFeasible\<close> equal to \<open>true\<close>: the field is the literal
  \<open>true\<close> of the returned object, whatever the constraints and right-hand sides are.
\<close>

theorem solve_isFeasible:
  "\<exists>sol. solve c A b mx vars = Inr sol \<and> isFeasible sol = True"
proof -
  obtain n s where "solveRun c A b mx vars = Inr (n, s)"
    using solveRun_ok [of c A b mx vars] by blast
  then show ?thesis by (simp add: solve_def buildSolution_def Let_def)
qed

text \<open>
  Claim C3. For every input the loop of \<open>solve\<close> ends after at most 50 passes, so
  after at most 50 pivots: the history holds at most one tableau more than there were
  passes. The flags and the value of the returned solution are those of the last tableau
  of the history, and a solution with neither flag set is returned only when the cap
  was reached, with all 50 passes having pivoted.
\<close>

theorem solve_terminates_within_cap:
  "\<exists>n s sol. solveRun c A b mx vars = Inr (n, s) \<and> n \<le> 50 \<and>
      solve c A b mx vars = Inr sol \<and>
      iterations sol \<noteq> [] \<and> length (iterations sol) \<le> n + 1 \<and>
      solIsOptimal sol = isOptimal (last (iterations sol)) \<and>
      solIsUnbounded sol = isUnbounded (last (iterations sol)) \<and>
      optimalValue sol = exOptimalValue (extractSolution (last (iterations sol)) vars mx) \<and>
      (solIsOptimal sol \<or> solIsUnbounded sol \<or> (n = 50 \<and> length (iterations sol) = 51))"
proof -
  obtain n s where r: "solveRun c A b mx vars = Inr (n, s)" "stateInv s" "n \<le> maxIterations"
    "length (heap s) \<le> Suc n"
    "isOptimal (current s) \<or> isUnbounded (current s) \<or>
       (n = maxIterations \<and> length (heap s) = Suc maxIterations)"
    using solveRun_ok [of c A b mx vars] by blast
  let ?sol = "buildSolution vars mx s"
  have it: "iterations ?sol = heap s" by (rule iterations_buildSolution [OF r(2)])
  have la: "last (iterations ?sol) = current s" using it last_heap_current [OF r(2)] by simp
  have ne: "heap s \<noteq> []" using r(2) by (simp add: stateInv_def)
  have fl: "solIsOptimal ?sol = isOptimal (current s)" "solIsUnbounded ?sol = isUnbounded (current s)"
    "optimalValue ?sol = exOptimalValue (extractSolution (current s) vars mx)"
    by (simp_all add: buildSolution_def Let_def)
  have "solve c A b mx vars = Inr ?sol" using r(1) by (simp add: solve_def)
  then show ?thesis
    using r it la ne fl unfolding maxIterations_def by (intro exI [of _ n] exI [of _ s] exI [of _ ?sol]) auto
qed

text \<open>
  Claim C10. In the solution \<open>solve\<close> returns, \<open>isOptimal\<close> and
  \<open>isUnbounded\<close> are never both true, and no tableau of the iteration history has
  both flags set.
\<close>

theorem solve_flags_exclusive:
  "\<exists>sol. solve c A b mx vars = Inr sol \<and>
     \<not> (solIsOptimal sol \<and> solIsUnbounded sol) \<and>
     (\<forall>t \<in> set (iterations sol). \<not> (isOptimal t \<and> isUnbounded t))"
proof -
  obtain n s where r: "solveRun c A b mx vars = Inr (n, s)" "stateInv s"
    using solveRun_ok [of c A b mx vars] by blast
  let ?sol = "buildSolution vars mx s"
  have it: "iterations ?sol = heap s" by (rule iterations_buildSolution [OF r(2)])
  have cur: "\<not> (isOptimal (current s) \<and> isUnbounded (current s))"
    using r(2) by (simp add: stateInv_def flagsExclusive_def)
  have all: "\<not> (isOptimal t \<and> isUnbounded t)" if "t \<in> set (heap s)" for t
  proof -
    from that obtain a where a: "a < length (heap s)" "t = heap s ! a"
      by (auto simp: in_set_conv_nth)
    show ?thesis
    proof (cases "a < length (heap s) - 1")
      case True
      then show ?thesis using r(2) a by (simp add: stateInv_def)
    next
      case False
      then have "a = currentTableau s" using a r(2) by (auto simp: stateInv_def)
      then show ?thesis using cur a by (simp add: current_def deref_def)
    qed
  qed
  have "solve c A b mx vars = Inr ?sol" using r(1) by (simp add: solve_def)
  moreover have "solIsOptimal ?sol = isOptimal (current s)" "solIsUnbounded ?sol = isUnbounded (current s)"
    by (simp_all add: buildSolution_def Let_def)
  ultimately show ?thesis using cur all it by auto
qed




lemma nlt_imp_nle: "nlt a b \<Longrightarrow> nle a b"
  by (cases a; cases b) auto






lemma findLeavingVariable_annot [simp]:
  "findLeavingVariable (t\<lparr> enteringVariable := a, pivotColumn := b \<rparr>) c = findLeavingVariable t c"
  by (simp add: findLeavingVariable_def)

lemma pivotOperation_annot [simp]:
  "pivotOperation (t\<lparr> enteringVariable := a, pivotColumn := b, leavingVariable := d, pivotRow := e \<rparr>) r c
     = pivotOperation t r c"
  by (simp add: pivotOperation_def Let_def cong: if_cong)

lemma isOptimalCheck_iteration [simp]:
  "isOptimalCheck (t\<lparr> iteration := n \<rparr>) = isOptimalCheck t"
  by (simp add: isOptimalCheck_def)



lemma loopBody_pivot:
  assumes "currentTableau s < length (heap s)"
    and "findEnteringVariable (current s) = Some c"
    and "findLeavingVariable (current s) c = Inr (Some r)"
    and "pivotOperation (current s) r c = Inr t'"
  shows "\<exists>s'. loopBody n s = Inr (Continue, s') \<and> currentTableau s' = length (heap s) \<and>
     history s' = history s @ [length (heap s)] \<and>
     heap s' = (heap s)[currentTableau s := annotate r c (current s)]
                 @ [t'\<lparr> iteration := n, isOptimal := isOptimalCheck t' \<rparr>]"
proof -
  have np: "\<not> isOptimal t'" using assms(4)
    by (auto simp: pivotOperation_def Let_def split: if_splits)
  show ?thesis
  using assms np
  by (cases "isOptimalCheck t'")
     (simp_all add: loopBody_def Let_def annotate_def current_alloc
        current_def [of "_\<lparr>currentTableau := _\<rparr>"] deref_def nth_append list_update_append)
qed

lemma upt_split:
  assumes "[0..<m] = pre @ k # post"
  shows "k < m \<and> pre = [0..<k]"
proof -
  have len: "length pre < m"
    using arg_cong [OF assms, of length] by simp
  have "[0..<m] ! length pre = k" using assms by (simp add: nth_append)
  then have k: "length pre = k" using len by simp
  have "take k [0..<m] = pre" using assms k by simp
  then have "pre = [0..<k]" using len k by (simp add: take_upt)
  then show ?thesis using len k by simp
qed


section \<open>The ratio test\<close>


lemma pivotOperation_Inr:
  assumes "pivotOperation t r c = Inr t'"
  shows "r < length (tableau t)" "r < length (basicVariables t)" "c < length (nonBasicVariables t)"
    "tableau t' = pivotedMatrix (tableau t) r c"
    "basicVariables t' = (basicVariables t)[r := nonBasicVariables t ! c]"
    "nonBasicVariables t' = (nonBasicVariables t)[c := basicVariables t ! r]"
    "objectiveRow t' = last (tableau t')"
    "rhsColumn t' = map lastEntry (tableau t')"
    "iteration t' = iteration t + 1"
    "\<not> isOptimal t'" "\<not> isUnbounded t'"
    "pivotRow t' = Some r" "pivotColumn t' = Some c"
  using assms
  by (auto simp: pivotOperation_def Let_def pivotedMatrix_def normalizedRow_def
      split: if_splits cong: if_cong)

lemma pivotedMatrix_length [simp]: "length (pivotedMatrix tab r c) = length tab"
  by (simp add: pivotedMatrix_def)

lemma pivotedMatrix_pivot_row:
  "r < length tab \<Longrightarrow> pivotedMatrix tab r c ! r = normalizedRow tab r c"
  by (simp add: pivotedMatrix_def)

lemma pivotedMatrix_other_row:
  "i < length tab \<Longrightarrow> i \<noteq> r \<Longrightarrow>
   pivotedMatrix tab r c ! i = eliminateRow (tab ! i) (numAt (tab ! i) c) (normalizedRow tab r c)"
  by (simp add: pivotedMatrix_def)

lemma eliminateRow_length [simp]: "length (eliminateRow row m nr) = length row"
  by (simp add: eliminateRow_def)

lemma eliminateRow_nth:
  "j < length row \<Longrightarrow> eliminateRow row m nr ! j = nsub (row ! j) (nmul m (numAt nr j))"
  by (simp add: eliminateRow_def)

lemma normalizedRow_pivot:
  assumes "numAt (tab ! r) c = Num p" "p \<noteq> 0"
  shows "numAt (normalizedRow tab r c) c = Num 1"
proof -
  have "c < length (tab ! r)" using assms(1) by (auto simp: numAt_def split: if_splits)
  then show ?thesis using assms by (simp add: normalizedRow_def numAt_def)
qed

section \<open>The pivot operation\<close>

text \<open>
  Claim C6. \<open>pivotOperation\<close> on an existing row and column with a nonzero pivot
  element returns a new tableau in which the pivot row is the old one divided by the
  pivot element, every other row is the old row minus its entry in the pivot column
  times the normalised pivot row, the pivot column is a unit vector (1 in the pivot row,
  0 in every other row whose entry was a number), the two lists of names have exchanged
  exactly the name at \<open>pivotRow\<close> of the basic list and the name at
  \<open>pivotColumn\<close> of the non-basic list, and the iteration counter is one more.
\<close>

theorem pivotOperation_spec:
  assumes "pRow < length (tableau t)" "pRow < length (basicVariables t)"
    "pColumn < length (nonBasicVariables t)"
    and "numAt (tableau t ! pRow) pColumn = Num p" "p \<noteq> 0"
  shows "\<exists>t'. pivotOperation t pRow pColumn = Inr t' \<and>
     length (tableau t') = length (tableau t) \<and>
     tableau t' ! pRow = map (\<lambda>x. ndiv x (Num p)) (tableau t ! pRow) \<and>
     (\<forall>i < length (tableau t). i \<noteq> pRow \<longrightarrow>
        length (tableau t' ! i) = length (tableau t ! i) \<and>
        (\<forall>j < length (tableau t ! i).
           tableau t' ! i ! j =
             nsub (tableau t ! i ! j)
                  (nmul (numAt (tableau t ! i) pColumn) (numAt (tableau t' ! pRow) j)))) \<and>
     numAt (tableau t' ! pRow) pColumn = Num 1 \<and>
     (\<forall>i < length (tableau t). i \<noteq> pRow \<longrightarrow> numAt (tableau t ! i) pColumn \<noteq> NaN \<longrightarrow>
        numAt (tableau t' ! i) pColumn = Num 0) \<and>
     length (basicVariables t') = length (basicVariables t) \<and>
     length (nonBasicVariables t') = length (nonBasicVariables t) \<and>
     basicVariables t' ! pRow = nonBasicVariables t ! pColumn \<and>
     nonBasicVariables t' ! pColumn = basicVariables t ! pRow \<and>
     (\<forall>k < length (basicVariables t). k \<noteq> pRow \<longrightarrow> basicVariables t' ! k = basicVariables t ! k) \<and>
     (\<forall>k < length (nonBasicVariables t). k \<noteq> pColumn \<longrightarrow>
        nonBasicVariables t' ! k = nonBasicVariables t ! k) \<and>
     objectiveRow t' = last (tableau t') \<and>
     rhsColumn t' = map lastEntry (tableau t') \<and>
     iteration t' = iteration t + 1"
proof -
  from pivotOperation_ok [OF assms(1,2,3)]
  obtain t' where t': "pivotOperation t pRow pColumn = Inr t'" by blast
  note f = pivotOperation_Inr [OF t']
  let ?nr = "normalizedRow (tableau t) pRow pColumn"
  have prow: "tableau t' ! pRow = ?nr"
    using f(4) assms(1) by (simp add: pivotedMatrix_pivot_row)
  have one: "numAt ?nr pColumn = Num 1" by (rule normalizedRow_pivot [OF assms(4,5)])
  have rows: "length (tableau t' ! i) = length (tableau t ! i) \<and>
        (\<forall>j < length (tableau t ! i).
           tableau t' ! i ! j =
             nsub (tableau t ! i ! j)
                  (nmul (numAt (tableau t ! i) pColumn) (numAt (tableau t' ! pRow) j)))"
    if "i < length (tableau t)" "i \<noteq> pRow" for i
    using that f(4) prow by (simp add: pivotedMatrix_other_row eliminateRow_nth)
  have zero: "numAt (tableau t' ! i) pColumn = Num 0"
    if i: "i < length (tableau t)" "i \<noteq> pRow" and v: "numAt (tableau t ! i) pColumn \<noteq> NaN" for i
  proof -
    obtain v' where v': "numAt (tableau t ! i) pColumn = Num v'" using v by (cases "numAt (tableau t ! i) pColumn") auto
    then have cl: "pColumn < length (tableau t ! i)" by (auto simp: numAt_def split: if_splits)
    then have e: "tableau t ! i ! pColumn = Num v'" using v' by (simp add: numAt_def)
    have "tableau t' ! i ! pColumn = nsub (Num v') (nmul (Num v') (Num 1))"
      using rows [OF i] cl v' e one prow by simp
    then show ?thesis using rows [OF i] cl by (simp add: numAt_def)
  qed
  show ?thesis
    apply (rule exI [of _ t'])
    using t' f(4,5,6,7,8,9) prow one rows zero assms(1,2,3,4)
    by (simp add: normalizedRow_def)
qed

section \<open>Sensitivity analysis\<close>

text \<open>
  Claim C7. For a solution with a non-empty history, \<open>performSensitivityAnalysis\<close>
  returns one shadow price per basic variable of the first tableau and one reduced cost
  per non-basic variable of the first tableau. The \<open>i\<close>-th shadow price is the negated
  entry of the last tableau's objective row at column \<open>numOriginalVars + i\<close>, labelled
  with the first tableau's \<open>i\<close>-th basic variable, or with \<open>s{i+1}\<close> when that name
  is missing (empty); the \<open>i\<close>-th reduced cost is the entry of the last tableau's
  objective row at column \<open>i\<close>, labelled with the first tableau's \<open>i\<close>-th non-basic
  variable. The function is a pure function of the solution: it writes to nothing.
\<close>

theorem performSensitivityAnalysis_spec:
  assumes "iterations sol \<noteq> []"
  shows "\<exists>res. performSensitivityAnalysis sol = Inr res \<and>
     length (shadowPrices res) = length (basicVariables (hd (iterations sol))) \<and>
     length (reducedCosts res) = length (nonBasicVariables (hd (iterations sol))) \<and>
     (\<forall>i < length (basicVariables (hd (iterations sol))).
        price (shadowPrices res ! i) =
          nneg (numAt (objectiveRow (last (iterations sol)))
                      (length (nonBasicVariables (hd (iterations sol))) + i)) \<and>
        constraint (shadowPrices res ! i) =
          (if basicVariables (hd (iterations sol)) ! i = [] then ''s'' @ showNat (i + 1)
           else basicVariables (hd (iterations sol)) ! i)) \<and>
     (\<forall>i < length (nonBasicVariables (hd (iterations sol))).
        cost (reducedCosts res ! i) = numAt (objectiveRow (last (iterations sol))) i \<and>
        variable (reducedCosts res ! i) = nonBasicVariables (hd (iterations sol)) ! i)"
  using assms
  by (simp add: performSensitivityAnalysis_def Let_def orElse_def slackName_def hd_conv_nth
      last_conv_nth)













lemma nle_trans: "nle a b \<Longrightarrow> nle b c \<Longrightarrow> nle a c"
  by (cases a; cases b; cases c) auto







section \<open>The graphical method\<close>














lemma nneg_NaN [simp]: "nneg x = NaN \<longleftrightarrow> x = NaN" "NaN = nneg x \<longleftrightarrow> x = NaN"
  by (cases x; auto)+




section \<open>Problems whose feasible region is the origin\<close>


lemmas run_defs = refineryRun_def slackReentryRun_def originRun_def
  solveRun_def initialState_def convertToStandardForm_def
  createInitialTableau_def simplexLoop.simps loopBody_def findEnteringVariable_def findLeavingVariable_def
  pivotOperation_def isOptimalCheck_def current_def deref_def writeCurrent_def pushStep_def
  maxIterations_def eliminateRow_def numAt_def lastEntry_def nameAt_def ngt_def slackName_def showNat.simps digitChar_def
  Let_def upt_conv_Cons

lemmas solution_defs = refinerySolution_def slackReentrySolution_def originSolution_def
  solve_def buildSolution_def extractSolution_def

lemmas graph_defs = slackReentryProblem_def computeGraphData_def feasiblePoints_def
  candidates_def intercepts_def pairIntersections_def intersection_def isFeasiblePoint_def
  satisfiesConstraint_def dedupe_def dedupeStep_def closePoints_def optimumScan_def
  optimumStep_def objectiveAt_def numAt_def nge_def ngt_def Let_def upt_conv_Cons

section \<open>What the entering-variable scan finds\<close>

lemma nlt_trans: "nlt a b \<Longrightarrow> nlt b c \<Longrightarrow> nlt a c"
  by (cases a; cases b; cases c) auto

lemma nlt_irrefl: "\<not> nlt a a"
  by (cases a) auto

lemma not_nlt_trans: "\<not> nlt x m \<Longrightarrow> nlt c m \<Longrightarrow> \<not> nle x c"
  by (cases x; cases m; cases c) auto

lemma chosenColumn_skip:
  assumes "chosenColumn row js mv c" "\<not> nle (numAt row i) (numAt row c)"
  shows "chosenColumn row (i # js) mv c"
proof -
  from assms(1) obtain pre post where f: "js = pre @ c # post" "nlt (numAt row c) mv"
    "\<forall>j \<in> set js. \<not> nlt (numAt row j) (numAt row c)"
    "\<forall>j \<in> set pre. \<not> nle (numAt row j) (numAt row c)"
    unfolding chosenColumn_def by blast
  have 1: "i # js = (i # pre) @ c # post" using f(1) by simp
  have 2: "\<forall>j \<in> set (i # js). \<not> nlt (numAt row j) (numAt row c)"
    using f(3) assms(2) nlt_imp_nle by auto
  have 3: "\<forall>j \<in> set (i # pre). \<not> nle (numAt row j) (numAt row c)"
    using f(4) assms(2) by auto
  show ?thesis unfolding chosenColumn_def using 1 2 3 f(2) by blast
qed

lemma chosenColumn_head:
  assumes "nlt (numAt row i) mv" "\<forall>j \<in> set js. \<not> nlt (numAt row j) (numAt row i)"
  shows "chosenColumn row (i # js) mv i"
proof -
  have "i # js = [] @ i # js" by simp
  moreover have "\<forall>j \<in> set (i # js). \<not> nlt (numAt row j) (numAt row i)"
    using assms(2) nlt_irrefl by simp
  moreover have "\<forall>j \<in> set []. \<not> nle (numAt row j) (numAt row i)" by simp
  ultimately show ?thesis unfolding chosenColumn_def using assms(1) by blast
qed

lemma chosenColumn_weaken:
  assumes "chosenColumn row js b c" "nlt b mv"
  shows "chosenColumn row js mv c"
proof -
  from assms(1) obtain pre post where f: "js = pre @ c # post" "nlt (numAt row c) b"
    "\<forall>j \<in> set js. \<not> nlt (numAt row j) (numAt row c)"
    "\<forall>j \<in> set pre. \<not> nle (numAt row j) (numAt row c)"
    unfolding chosenColumn_def by blast
  have "nlt (numAt row c) mv" by (rule nlt_trans [OF f(2) assms(2)])
  then show ?thesis unfolding chosenColumn_def using f(1,3,4) by blast
qed

lemma chosenColumn_less: "chosenColumn row js mv c \<Longrightarrow> nlt (numAt row c) mv"
  by (auto simp: chosenColumn_def)

lemma enteringLoop_spec:
  "(enteringLoop row js mv col = col \<and> (\<forall>j \<in> set js. \<not> nlt (numAt row j) mv)) \<or>
   (\<exists>c. enteringLoop row js mv col = Some c \<and> chosenColumn row js mv c)"
proof (induction js arbitrary: mv col)
  case Nil
  then show ?case by simp
next
  case (Cons i js)
  show ?case
  proof (cases "nlt (numAt row i) mv")
    case False
    then have eq: "enteringLoop row (i # js) mv col = enteringLoop row js mv col" by simp
    from Cons.IH [of mv col] show ?thesis
    proof
      assume "enteringLoop row js mv col = col \<and> (\<forall>j \<in> set js. \<not> nlt (numAt row j) mv)"
      then show ?thesis using eq False by simp
    next
      assume "\<exists>c. enteringLoop row js mv col = Some c \<and> chosenColumn row js mv c"
      then obtain c where c: "enteringLoop row js mv col = Some c" "chosenColumn row js mv c" by blast
      have "\<not> nle (numAt row i) (numAt row c)"
        by (rule not_nlt_trans [OF False chosenColumn_less [OF c(2)]])
      then have "chosenColumn row (i # js) mv c" by (rule chosenColumn_skip [OF c(2)])
      then show ?thesis using eq c(1) by simp
    qed
  next
    case True
    then have eq: "enteringLoop row (i # js) mv col = enteringLoop row js (numAt row i) (Some i)"
      by simp
    from Cons.IH [of "numAt row i" "Some i"] show ?thesis
    proof
      assume a: "enteringLoop row js (numAt row i) (Some i) = Some i \<and>
          (\<forall>j \<in> set js. \<not> nlt (numAt row j) (numAt row i))"
      then have "chosenColumn row (i # js) mv i" using chosenColumn_head [OF True] by blast
      then show ?thesis using eq a by simp
    next
      assume "\<exists>c. enteringLoop row js (numAt row i) (Some i) = Some c \<and>
          chosenColumn row js (numAt row i) c"
      then obtain c where c: "enteringLoop row js (numAt row i) (Some i) = Some c"
        "chosenColumn row js (numAt row i) c" by blast
      have lt: "nlt (numAt row c) (numAt row i)" by (rule chosenColumn_less [OF c(2)])
      then have "\<not> nle (numAt row i) (numAt row c)"
        by (cases "numAt row i"; cases "numAt row c") auto
      moreover have "chosenColumn row js mv c" by (rule chosenColumn_weaken [OF c(2) True])
      ultimately have "chosenColumn row (i # js) mv c" using chosenColumn_skip by blast
      then show ?thesis using eq c(1) by simp
    qed
  qed
qed

text \<open>
  What the scan of \<open>findEnteringVariable\<close> finds: among the first
  \<open>nonBasicVariables.length\<close> entries of the objective row, the first one that is
  negative and not above any other; nothing when none of them is negative.
\<close>

lemma findEnteringVariable_spec:
  "case findEnteringVariable t of
     None \<Rightarrow> (\<forall>j < length (nonBasicVariables t). \<not> nlt (numAt (objectiveRow t) j) (Num 0))
   | Some c \<Rightarrow>
       c < length (nonBasicVariables t) \<and> nlt (numAt (objectiveRow t) c) (Num 0) \<and>
       (\<forall>j < length (nonBasicVariables t).
          \<not> nlt (numAt (objectiveRow t) j) (numAt (objectiveRow t) c)) \<and>
       (\<forall>j < c. \<not> nle (numAt (objectiveRow t) j) (numAt (objectiveRow t) c))"
proof -
  let ?k = "length (nonBasicVariables t)"
  from enteringLoop_spec [of "objectiveRow t" "[0..<?k]" "Num 0" None]
  show ?thesis
  proof
    assume "enteringLoop (objectiveRow t) [0..<?k] (Num 0) None = None \<and>
        (\<forall>j \<in> set [0..<?k]. \<not> nlt (numAt (objectiveRow t) j) (Num 0))"
    then show ?thesis by (simp add: findEnteringVariable_def)
  next
    assume "\<exists>c. enteringLoop (objectiveRow t) [0..<?k] (Num 0) None = Some c \<and>
        chosenColumn (objectiveRow t) [0..<?k] (Num 0) c"
    then obtain c where c: "enteringLoop (objectiveRow t) [0..<?k] (Num 0) None = Some c"
      "chosenColumn (objectiveRow t) [0..<?k] (Num 0) c" by blast
    from c(2) obtain pre post where f: "[0..<?k] = pre @ c # post"
      "nlt (numAt (objectiveRow t) c) (Num 0)"
      "\<forall>j \<in> set [0..<?k]. \<not> nlt (numAt (objectiveRow t) j) (numAt (objectiveRow t) c)"
      "\<forall>j \<in> set pre. \<not> nle (numAt (objectiveRow t) j) (numAt (objectiveRow t) c)"
      unfolding chosenColumn_def by blast
    from upt_split [OF f(1)] have "c < ?k" "pre = [0..<c]" by simp_all
    then show ?thesis using c(1) f(2,3,4) by (simp add: findEnteringVariable_def)
  qed
qed

section \<open>The entering-variable scan\<close>

text \<open>
  Claim C1. The claim says that the entering variable is searched among the columns
  that are non-basic in the current tableau. \<open>findEnteringVariable\<close> scans the first
  \<open>nonBasicVariables.length\<close> columns instead, which are the columns of the original
  decision variables whatever the basis is. On the problem maximize \<open>3 x1 + 2 x2\<close>
  subject to \<open>x1 \<le> 2\<close>, \<open>4 x1 + x2 \<le> 9\<close>, \<open>x2 \<le> 5\<close>, after two pivots the
  non-basic variables are \<open>s1\<close> and \<open>s2\<close>, the objective row holds \<open>-5\<close> in the
  column of \<open>s1\<close> (column 2), and the scan, looking at columns 0 and 1 only, finds
  nothing: the tableau is flagged optimal with value 8 at \<open>(2, 1)\<close>, although the check
  \<open>isOptimal\<close> of the same file rejects it and the graphical method of the same
  repository finds the optimum 13 at \<open>(1, 5)\<close>.
\<close>

theorem entering_scan_misses_slack_column:
  "\<not> isl slackReentryRun \<and>
   fst (projr slackReentryRun) = 3 \<and>
   length (heap (snd (projr slackReentryRun))) = 3 \<and>
   objectiveRow (current (snd (projr slackReentryRun))) =
     [Num 0, Num 0, Num (- 5), Num 2, Num 0, Num 8] \<and>
   basicVariables (current (snd (projr slackReentryRun))) = [''x1'', ''x2'', ''s3''] \<and>
   nonBasicVariables (current (snd (projr slackReentryRun))) = [''s1'', ''s2''] \<and>
   variables (convertToStandardForm [Num 3, Num 2]
      [[Num 1, Num 0], [Num 4, Num 1], [Num 0, Num 1]] [Num 2, Num 9, Num 5] True [''x1'', ''x2''])
     = [''x1'', ''x2'', ''s1'', ''s2'', ''s3''] \<and>
   nlt (numAt (objectiveRow (current (snd (projr slackReentryRun)))) 2) (Num 0) \<and>
   findEnteringVariable ((current (snd (projr slackReentryRun)))\<lparr> isOptimal := False \<rparr>) = None \<and>
   isOptimal (current (snd (projr slackReentryRun))) \<and>
   \<not> isOptimalCheck (current (snd (projr slackReentryRun))) \<and>
   \<not> isl slackReentrySolution \<and>
   solIsOptimal (projr slackReentrySolution) \<and>
   optimalValue (projr slackReentrySolution) = Num 8 \<and>
   optimalSolution (projr slackReentrySolution) ''x1'' = Some (Num 2) \<and>
   optimalSolution (projr slackReentrySolution) ''x2'' = Some (Num 1) \<and>
   optimalPoint (computeGraphData slackReentryProblem) = Some \<lparr> xCoord = Num 1, yCoord = Num 5 \<rparr> \<and>
   graphOptimalValue (computeGraphData slackReentryProblem) = Num 13"
proof -
  have run: "\<not> isl slackReentryRun \<and>
   fst (projr slackReentryRun) = 3 \<and>
   length (heap (snd (projr slackReentryRun))) = 3 \<and>
   objectiveRow (current (snd (projr slackReentryRun))) =
     [Num 0, Num 0, Num (- 5), Num 2, Num 0, Num 8] \<and>
   basicVariables (current (snd (projr slackReentryRun))) = [''x1'', ''x2'', ''s3''] \<and>
   nonBasicVariables (current (snd (projr slackReentryRun))) = [''s1'', ''s2''] \<and>
   isOptimal (current (snd (projr slackReentryRun)))"
    by (simp add: run_defs)
  have names: "variables (convertToStandardForm [Num 3, Num 2]
      [[Num 1, Num 0], [Num 4, Num 1], [Num 0, Num 1]] [Num 2, Num 9, Num 5] True [''x1'', ''x2''])
     = [''x1'', ''x2'', ''s1'', ''s2'', ''s3'']"
    by (simp add: run_defs)
  have scan: "nlt (numAt (objectiveRow (current (snd (projr slackReentryRun)))) 2) (Num 0) \<and>
   findEnteringVariable ((current (snd (projr slackReentryRun)))\<lparr> isOptimal := False \<rparr>) = None \<and>
   \<not> isOptimalCheck (current (snd (projr slackReentryRun)))"
    using run by (simp add: findEnteringVariable_def isOptimalCheck_def numAt_def upt_conv_Cons)
  have sol: "\<not> isl slackReentrySolution \<and>
   solIsOptimal (projr slackReentrySolution) \<and>
   optimalValue (projr slackReentrySolution) = Num 8 \<and>
   optimalSolution (projr slackReentrySolution) ''x1'' = Some (Num 2) \<and>
   optimalSolution (projr slackReentrySolution) ''x2'' = Some (Num 1)"
    by (simp add: solution_defs run_defs)
  have graph: "optimalPoint (computeGraphData slackReentryProblem) = Some \<lparr> xCoord = Num 1, yCoord = Num 5 \<rparr> \<and>
   graphOptimalValue (computeGraphData slackReentryProblem) = Num 13"
    by (simp add: graph_defs)
  show ?thesis using run names scan sol graph by simp
qed

section \<open>Tableaus of the history\<close>



lemmas start_defs = refineryStart_def initialState_def convertToStandardForm_def
  createInitialTableau_def current_def deref_def numAt_def lastEntry_def slackName_def
  showNat.simps digitChar_def Let_def upt_conv_Cons



lemma refineryStart_current:
  "current refineryStart =
     \<lparr> tableau = [[Num 1, Num 0, Num 1, Num 0, Num 0, Num 4],
                  [Num 0, Num 2, Num 0, Num 1, Num 0, Num 12],
                  [Num 3, Num 2, Num 0, Num 0, Num 1, Num 18],
                  [Num (- 3), Num (- 5), Num 0, Num 0, Num 0, Num 0]],
       basicVariables = [''s1'', ''s2'', ''s3''],
       nonBasicVariables = [''x1'', ''x2''],
       objectiveRow = [Num (- 3), Num (- 5), Num 0, Num 0, Num 0, Num 0],
       rhsColumn = [Num 4, Num 12, Num 18, Num 0],
       iteration = 0, isOptimal = False, isUnbounded = False,
       pivotRow = None, pivotColumn = None, enteringVariable = None, leavingVariable = None \<rparr>"
  by (simp add: start_defs)



theorem pivotOperation_spec_witness:
  "(1::nat) < length (tableau (current refineryStart)) \<and>
   (1::nat) < length (basicVariables (current refineryStart)) \<and>
   (1::nat) < length (nonBasicVariables (current refineryStart)) \<and>
   numAt (tableau (current refineryStart) ! 1) 1 = Num 2 \<and> (2::real) \<noteq> 0 \<and>
   \<not> isl (pivotOperation (current refineryStart) 1 1) \<and>
   tableau (projr (pivotOperation (current refineryStart) 1 1)) ! 1 =
     [Num 0, Num 1, Num 0, Num (1 / 2), Num 0, Num 6] \<and>
   numAt (tableau (projr (pivotOperation (current refineryStart) 1 1)) ! 1) 1 = Num 1 \<and>
   numAt (tableau (projr (pivotOperation (current refineryStart) 1 1)) ! 0) 1 = Num 0 \<and>
   numAt (tableau (projr (pivotOperation (current refineryStart) 1 1)) ! 3) 1 = Num 0 \<and>
   basicVariables (projr (pivotOperation (current refineryStart) 1 1)) ! 1 = ''x2'' \<and>
   nonBasicVariables (projr (pivotOperation (current refineryStart) 1 1)) ! 1 = ''s2'' \<and>
   iteration (projr (pivotOperation (current refineryStart) 1 1)) = 1"
proof -
  have h: "(1::nat) < length (tableau (current refineryStart))"
    "(1::nat) < length (basicVariables (current refineryStart))"
    "(1::nat) < length (nonBasicVariables (current refineryStart))"
    "numAt (tableau (current refineryStart) ! 1) 1 = Num 2" "(2::real) \<noteq> 0"
    by (simp_all add: refineryStart_current numAt_def)
  from pivotOperation_spec [OF h]
  obtain t' where t': "pivotOperation (current refineryStart) 1 1 = Inr t'"
    and row: "tableau t' ! 1 = map (\<lambda>x. ndiv x (Num 2)) (tableau (current refineryStart) ! 1)"
    and one: "numAt (tableau t' ! 1) 1 = Num 1"
    and zero: "\<forall>i < length (tableau (current refineryStart)). i \<noteq> 1 \<longrightarrow>
        numAt (tableau (current refineryStart) ! i) 1 \<noteq> NaN \<longrightarrow> numAt (tableau t' ! i) 1 = Num 0"
    and names: "basicVariables t' ! 1 = nonBasicVariables (current refineryStart) ! 1"
      "nonBasicVariables t' ! 1 = basicVariables (current refineryStart) ! 1"
    and it: "iteration t' = iteration (current refineryStart) + 1" by blast
  have z0: "numAt (tableau t' ! 0) 1 = Num 0" and z3: "numAt (tableau t' ! 3) 1 = Num 0"
    using zero by (simp_all add: refineryStart_current numAt_def)
  show ?thesis
    using h t' row one z0 z3 names it by (simp add: refineryStart_current)
qed

lemma refinerySolution_facts:
  "\<not> isl refinerySolution \<and> length (iterations (projr refinerySolution)) = 3 \<and>
   solIsOptimal (projr refinerySolution) \<and> \<not> solIsUnbounded (projr refinerySolution) \<and>
   optimalValue (projr refinerySolution) = Num 36 \<and>
   basicVariables (iterations (projr refinerySolution) ! 0) = [''s1'', ''s2'', ''s3''] \<and>
   nonBasicVariables (iterations (projr refinerySolution) ! 0) = [''x1'', ''x2''] \<and>
   objectiveRow (iterations (projr refinerySolution) ! 2) =
     [Num 0, Num 0, Num 0, Num (3 / 2), Num 1, Num 36]"
  by (simp add: solution_defs run_defs)

theorem performSensitivityAnalysis_spec_witness:
  "iterations (projr refinerySolution) \<noteq> [] \<and>
   \<not> isl (performSensitivityAnalysis (projr refinerySolution)) \<and>
   length (shadowPrices (projr (performSensitivityAnalysis (projr refinerySolution)))) = 3 \<and>
   length (reducedCosts (projr (performSensitivityAnalysis (projr refinerySolution)))) = 2 \<and>
   price (shadowPrices (projr (performSensitivityAnalysis (projr refinerySolution))) ! 1) = Num (- (3 / 2)) \<and>
   constraint (shadowPrices (projr (performSensitivityAnalysis (projr refinerySolution))) ! 1) = ''s2'' \<and>
   cost (reducedCosts (projr (performSensitivityAnalysis (projr refinerySolution))) ! 0) = Num 0 \<and>
   variable (reducedCosts (projr (performSensitivityAnalysis (projr refinerySolution))) ! 0) = ''x1''"
proof -
  let ?sol = "projr refinerySolution"
  have len: "length (iterations ?sol) = 3" using refinerySolution_facts by simp
  then have ne: "iterations ?sol \<noteq> []" by auto
  have hd: "hd (iterations ?sol) = iterations ?sol ! 0"
    using ne by (simp add: hd_conv_nth)
  have la: "last (iterations ?sol) = iterations ?sol ! 2"
    using ne len by (simp add: last_conv_nth)
  from performSensitivityAnalysis_spec [OF ne]
  obtain res where res: "performSensitivityAnalysis ?sol = Inr res"
    "length (shadowPrices res) = length (basicVariables (hd (iterations ?sol)))"
    "length (reducedCosts res) = length (nonBasicVariables (hd (iterations ?sol)))"
    and sp: "\<forall>i < length (basicVariables (hd (iterations ?sol))).
        price (shadowPrices res ! i) =
          nneg (numAt (objectiveRow (last (iterations ?sol)))
                      (length (nonBasicVariables (hd (iterations ?sol))) + i)) \<and>
        constraint (shadowPrices res ! i) =
          (if basicVariables (hd (iterations ?sol)) ! i = [] then ''s'' @ showNat (i + 1)
           else basicVariables (hd (iterations ?sol)) ! i)"
    and rc: "\<forall>i < length (nonBasicVariables (hd (iterations ?sol))).
        cost (reducedCosts res ! i) = numAt (objectiveRow (last (iterations ?sol))) i \<and>
        variable (reducedCosts res ! i) = nonBasicVariables (hd (iterations ?sol)) ! i"
    by blast
  have "price (shadowPrices res ! 1) = Num (- (3 / 2))" "constraint (shadowPrices res ! 1) = ''s2''"
    using sp refinerySolution_facts unfolding hd la by (simp_all add: numAt_def)
  moreover have "cost (reducedCosts res ! 0) = Num 0" "variable (reducedCosts res ! 0) = ''x1''"
    using rc refinerySolution_facts unfolding hd la by (simp_all add: numAt_def)
  moreover have "length (shadowPrices res) = 3" "length (reducedCosts res) = 2"
    using res(2,3) refinerySolution_facts unfolding hd by simp_all
  ultimately show ?thesis using res(1) ne by simp
qed

theorem solve_flags_exclusive_witness:
  "\<not> isl refinerySolution \<and>
   \<not> (solIsOptimal (projr refinerySolution) \<and> solIsUnbounded (projr refinerySolution)) \<and>
   \<not> (isOptimal (iterations (projr refinerySolution) ! 0) \<and>
      isUnbounded (iterations (projr refinerySolution) ! 0)) \<and>
   \<not> (isOptimal (iterations (projr refinerySolution) ! 2) \<and>
      isUnbounded (iterations (projr refinerySolution) ! 2)) \<and>
   length (iterations (projr refinerySolution)) = 3"
proof -
  from solve_flags_exclusive [of "[Num 3, Num 5]" "[[Num 1, Num 0], [Num 0, Num 2], [Num 3, Num 2]]"
      "[Num 4, Num 12, Num 18]" True "[''x1'', ''x2'']"]
  obtain sol where sol: "refinerySolution = Inr sol"
    "\<not> (solIsOptimal sol \<and> solIsUnbounded sol)"
    "\<forall>t \<in> set (iterations sol). \<not> (isOptimal t \<and> isUnbounded t)"
    unfolding refinerySolution_def by blast
  have len: "length (iterations sol) = 3" using refinerySolution_facts unfolding sol(1) by simp
  then have "iterations sol ! 0 \<in> set (iterations sol)" "iterations sol ! 2 \<in> set (iterations sol)"
    by simp_all
  then show ?thesis unfolding sol(1) using sol(2,3) len by simp
qed




section \<open>A run that stops at the iteration cap\<close>

text \<open>
  As long as the passes on the matrix go on, the loop goes on with them, each pass
  allocating one tableau.
\<close>

lemma pivotRun_pos:
  "0 < j \<Longrightarrow> pivotRun k j M =
     (case matrixStep k M of
        None \<Rightarrow> None
      | Some M' \<Rightarrow> if matrixOptimal M' then None else pivotRun k (j - 1) M')"
  by (cases j) (auto split: option.splits)

lemmas matrix_defs = matrixStep_def matrixOptimal_def pivotedMatrix_def normalizedRow_def
  eliminateRow_def numAt_def lastEntry_def ngt_def upt_conv_Cons Let_def

lemma matrixStep_loopBody:
  assumes inv: "stateInv s" and reg: "regular (current s)"
    and nopt: "\<not> isOptimal (current s)" and nunb: "\<not> isUnbounded (current s)"
    and step: "matrixStep (length (nonBasicVariables (current s))) (tableau (current s)) = Some M'"
  shows "\<exists>s'. loopBody n s = Inr (Continue, s') \<and> stateInv s' \<and> regular (current s') \<and>
     length (nonBasicVariables (current s')) = length (nonBasicVariables (current s)) \<and>
     tableau (current s') = M' \<and> isOptimal (current s') = matrixOptimal M' \<and>
     \<not> isUnbounded (current s') \<and> length (heap s') = Suc (length (heap s))"
proof -
  let ?t = "current s"
  have b: "currentTableau s < length (heap s)" by (rule stateInv_current_bound [OF inv])
  have wf: "wfTableau ?t" by (rule stateInv_current_wf [OF inv])
  have rl: "length (rhsColumn ?t) = length (tableau ?t)" using wf by (simp add: wfTableau_def)
  from step obtain c where c: "enteringLoop (last (tableau ?t))
      [0..<length (nonBasicVariables ?t)] (Num 0) None = Some c"
    by (auto simp: matrixStep_def split: option.splits)
  then have ent: "findEnteringVariable ?t = Some c"
    using reg by (simp add: findEnteringVariable_def regular_def)
  from step c obtain r where r: "leavingLoop (tableau ?t) (map lastEntry (tableau ?t)) c
      [0..<length (tableau ?t) - 1] None None = Inr (Some r)"
    and M': "M' = pivotedMatrix (tableau ?t) r c"
    by (auto simp: matrixStep_def split: option.splits sum.splits)
  have lv: "findLeavingVariable ?t c = Inr (Some r)"
    using r reg rl by (simp add: findLeavingVariable_def regular_def)
  have r1: "r < length (tableau ?t)" "r < length (basicVariables ?t)"
    using findLeavingVariable_ok [OF wf, of c] lv wf by (auto simp: wfTableau_def)
  have cb: "c < length (nonBasicVariables ?t)" by (rule findEnteringVariable_range [OF ent])
  from pivotOperation_ok [OF r1 cb] obtain t' where t': "pivotOperation ?t r c = Inr t'" by blast
  note f = pivotOperation_Inr [OF t']
  from loopBody_pivot [OF b ent lv t', of n]
  obtain s' where s': "loopBody n s = Inr (Continue, s')" "currentTableau s' = length (heap s)"
    "heap s' = (heap s)[currentTableau s := annotate r c ?t]
                 @ [t'\<lparr> iteration := n, isOptimal := isOptimalCheck t' \<rparr>]" by blast
  have cur: "current s' = t'\<lparr> iteration := n, isOptimal := isOptimalCheck t' \<rparr>"
    using s'(2,3) by (simp add: current_def deref_def nth_append)
  from loopBody_ok [OF inv nopt nunb, of n] s'(1) have inv': "stateInv s'" by auto
  have "isOptimalCheck t' = matrixOptimal M'"
    using f(4,7) M' by (simp add: isOptimalCheck_def matrixOptimal_def)
  then show ?thesis
    using s'(1,3) inv' cur f(4,6,7,8,11) M' by (simp add: regular_def)
qed

lemma pivotRun_simplexLoop:
  "stateInv s \<Longrightarrow> regular (current s) \<Longrightarrow> \<not> isOptimal (current s) \<Longrightarrow>
   \<not> isUnbounded (current s) \<Longrightarrow> n + j \<le> maxIterations \<Longrightarrow>
   pivotRun (length (nonBasicVariables (current s))) j (tableau (current s)) = Some M \<Longrightarrow>
   \<exists>s'. simplexLoop n s = simplexLoop (n + j) s' \<and> stateInv s' \<and>
        \<not> isOptimal (current s') \<and> \<not> isUnbounded (current s') \<and>
        tableau (current s') = M \<and> length (heap s') = length (heap s) + j"
proof (induction j arbitrary: n s)
  case 0
  then show ?case by auto
next
  case (Suc j)
  let ?k = "length (nonBasicVariables (current s))"
  from Suc.prems(6) obtain M1 where M1: "matrixStep ?k (tableau (current s)) = Some M1"
    "\<not> matrixOptimal M1" "pivotRun ?k j M1 = Some M"
    by (auto split: option.splits if_splits)
  from matrixStep_loopBody [OF Suc.prems(1,2,3,4) M1(1), of "n + 1"]
  obtain s1 where s1: "loopBody (n + 1) s = Inr (Continue, s1)" "stateInv s1" "regular (current s1)"
    "length (nonBasicVariables (current s1)) = ?k" "tableau (current s1) = M1"
    "isOptimal (current s1) = matrixOptimal M1" "\<not> isUnbounded (current s1)"
    "length (heap s1) = Suc (length (heap s))" by blast
  have lt: "n < maxIterations" using Suc.prems(5) by simp
  have eq: "simplexLoop n s = simplexLoop (n + 1) s1"
    using simplexLoop_step [OF Suc.prems(3,4) lt] s1(1) by simp
  have n1: "\<not> isOptimal (current s1)" using s1(6) M1(2) by simp
  have le: "(n + 1) + j \<le> maxIterations" using Suc.prems(5) by simp
  have run: "pivotRun (length (nonBasicVariables (current s1))) j (tableau (current s1)) = Some M"
    using M1(3) s1(4,5) by simp
  from Suc.IH [OF s1(2,3) n1 s1(7) le run]
  obtain s' where "simplexLoop (n + 1) s1 = simplexLoop (n + 1 + j) s'" "stateInv s'"
    "\<not> isOptimal (current s')" "\<not> isUnbounded (current s')" "tableau (current s') = M"
    "length (heap s') = length (heap s1) + j" by blast
  then show ?case using eq s1(8) by (intro exI [of _ s']) simp
qed

text \<open>
  On the degenerate problem the matrix is back to the initial one after six passes, so
  the loop runs its 50 passes and stops with 51 tableaus, the last one flagged neither
  optimal nor unbounded.
\<close>

lemma cycle6: "pivotRun 6 6 cyclingMatrix = Some cyclingMatrix"
  by (simp add: pivotRun_pos cyclingMatrix_def matrix_defs)

lemma cycle50: "pivotRun 6 50 cyclingMatrix \<noteq> None"
  by (simp add: pivotRun_pos cyclingMatrix_def matrix_defs)

lemma cyclingRun_cap:
  "\<exists>s. cyclingRun = Inr (50, s) \<and> stateInv s \<and> \<not> isOptimal (current s) \<and>
       \<not> isUnbounded (current s) \<and> length (heap s) = 51"
proof -
  let ?sf = "convertToStandardForm [Num (3 / 4), Num (- 20), Num (1 / 2), Num (- 6), Num 0, Num 0]
       [[Num (1 / 4), Num (- 8), Num (- 1), Num 9, Num 1, Num 0],
        [Num (1 / 2), Num (- 12), Num (- (1 / 2)), Num 3, Num 0, Num 1]]
       [Num 0, Num 0] True [''x4'', ''x5'', ''x6'', ''x7'', ''x1'', ''x2'']"
  let ?s0 = "initialState ?sf"
  have inv: "stateInv ?s0" by (rule stateInv_initial)
  have cur: "current ?s0 = createInitialTableau ?sf"
    by (simp add: initialState_def current_def deref_def)
  have reg: "regular (current ?s0)"
    unfolding cur by (simp add: regular_def createInitialTableau_def Let_def)
  have fl: "\<not> isOptimal (current ?s0)" "\<not> isUnbounded (current ?s0)"
    unfolding cur by (simp_all add: createInitialTableau_def Let_def)
  have tab: "tableau (current ?s0) = cyclingMatrix"
    "length (nonBasicVariables (current ?s0)) = 6"
    unfolding cur
    by (simp_all add: createInitialTableau_def convertToStandardForm_def cyclingMatrix_def
        numAt_def Let_def upt_conv_Cons)
  obtain M where M: "pivotRun 6 50 cyclingMatrix = Some M" using cycle50 by auto
  have le: "0 + 50 \<le> maxIterations" by (simp add: maxIterations_def)
  from pivotRun_simplexLoop [OF inv reg fl le, of M] M tab
  obtain s where s: "simplexLoop 0 ?s0 = simplexLoop (0 + 50) s" "stateInv s"
    "\<not> isOptimal (current s)" "\<not> isUnbounded (current s)"
    "length (heap s) = length (heap ?s0) + 50" by auto
  have "simplexLoop 50 s = Inr (50, s)"
    by (rule simplexLoop_stop) (simp add: maxIterations_def)
  then have "cyclingRun = Inr (50, s)"
    using s(1) by (simp add: cyclingRun_def solveRun_def)
  moreover have "length (heap s) = 51" using s(5) by (simp add: initialState_def)
  ultimately show ?thesis using s(2,3,4) by blast
qed

theorem solve_terminates_within_cap_witness:
  "\<not> isl cyclingRun \<and> fst (projr cyclingRun) = 50 \<and>
   \<not> isl cyclingSolution \<and>
   \<not> solIsOptimal (projr cyclingSolution) \<and> \<not> solIsUnbounded (projr cyclingSolution) \<and>
   length (iterations (projr cyclingSolution)) = 51 \<and>
   \<not> isOptimal (last (iterations (projr cyclingSolution))) \<and>
   \<not> isUnbounded (last (iterations (projr cyclingSolution)))"
proof -
  obtain s where s: "cyclingRun = Inr (50, s)" "stateInv s" "\<not> isOptimal (current s)"
    "\<not> isUnbounded (current s)" "length (heap s) = 51"
    using cyclingRun_cap by blast
  from solve_terminates_within_cap [of "[Num (3 / 4), Num (- 20), Num (1 / 2), Num (- 6), Num 0, Num 0]"
       "[[Num (1 / 4), Num (- 8), Num (- 1), Num 9, Num 1, Num 0],
         [Num (1 / 2), Num (- 12), Num (- (1 / 2)), Num 3, Num 0, Num 1]]"
       "[Num 0, Num 0]" True "[''x4'', ''x5'', ''x6'', ''x7'', ''x1'', ''x2'']"]
  obtain n s' sol where r: "cyclingRun = Inr (n, s')" "cyclingSolution = Inr sol"
    "solIsOptimal sol = isOptimal (last (iterations sol))"
    "solIsUnbounded sol = isUnbounded (last (iterations sol))"
    unfolding cyclingRun_def cyclingSolution_def by blast
  have "Inr (n, s') = (Inr (50, s) :: error + nat \<times> solverState)" using r(1) s(1) by simp
  then have ns: "n = 50" "s' = s" by simp_all
  have sol: "sol = buildSolution [''x4'', ''x5'', ''x6'', ''x7'', ''x1'', ''x2''] True s"
    using r(2) s(1) by (simp add: cyclingSolution_def cyclingRun_def solve_def)
  have it: "iterations sol = heap s" unfolding sol by (rule iterations_buildSolution [OF s(2)])
  have fl: "\<not> solIsOptimal sol" "\<not> solIsUnbounded sol"
    using s(3,4) unfolding sol by (simp_all add: buildSolution_def Let_def)
  show ?thesis
    unfolding r(2) s(1) using fl r(3,4) it s(5) by simp
qed

end
